theory Spec2Isabelle
  imports Complex_Main
begin

section \<open>The execution sampler and status classifier of the JIT visualizer\<close>

text \<open>
  The page component \<^verbatim>\<open>src/app/page.tsx\<close> exists in two variants: the measured
  ("real") page, whose sampler is \<^verbatim>\<open>executeFunction\<close>, and the simulated page, whose
  sampler is \<^verbatim>\<open>simulateExecution\<close>. Both keep a list of function records and a list
  of log lines in React state, and change them through pure updaters
  (\<^verbatim>\<open>setFunctions((prev) => ...)\<close>, \<^verbatim>\<open>setLogs((prev) => ...)\<close>).

  Conventions of the embedding:
  \<^item> A TypeScript \<^verbatim>\<open>number\<close> that holds a time or a level is the \<^typ>\<open>real\<close> a
    finite double denotes, and every arithmetic operation on such numbers is the
    exact operation followed by the rounding \<open>fl\<close> of IEEE-754 double precision
    (see the subsection on numbers). \<^verbatim>\<open>callCount\<close> only ever holds a count and is
    a \<^typ>\<open>nat\<close>: adding 1 is exact on doubles below \<open>2 ^ 53\<close>.
  \<^item> \<^verbatim>\<open>number | null\<close> is a \<^typ>\<open>real option\<close>, \<^verbatim>\<open>null\<close> being \<^term>\<open>None\<close>.
  \<^item> The two outside inputs of a sample are parameters: the measured
    \<^verbatim>\<open>performance.now() - start\<close> of the measured page, and the value returned by
    \<^verbatim>\<open>Math.random()\<close> of the simulated page.
  \<^item> An updater is taken to run once for each call of its setter. The calls of
    \<^verbatim>\<open>addLog\<close> made inside an updater are returned as the list of emitted
    messages, in the order of the calls.
  \<^item> A log line is the pair of the clock text and the message; a message is a
    constructor for each template string of the source, carrying the values the
    template interpolates.
\<close>

subsection \<open>Numbers\<close>

text \<open>
  A finite IEEE-754 double is a number \<open>m * 2 ^ e\<close> with an integer significand
  \<open>m\<close> of at most 53 bits. The result of an arithmetic operation of JavaScript
  is the exact result rounded to the nearest double, to the one with the even
  significand at a tie. \<open>rne\<close> rounds a real to the nearest integer, ties to
  even; \<open>binade x\<close> is the exponent \<open>k\<close> with \<open>2 ^ k \<le> \<bar>x\<bar> < 2 ^ (k + 1)\<close>;
  \<open>fl\<close> rounds to 53 significant bits. The exponent range is not bounded here:
  the subnormal numbers, the overflow to \<^verbatim>\<open>Infinity\<close> and \<^verbatim>\<open>NaN\<close> are outside the
  model (the one division by a possible zero is written out where it occurs).
\<close>

definition rne :: "real \<Rightarrow> int" where
  "rne y =
     (let f = \<lfloor>y\<rfloor>; d = y - of_int f
      in if d < 1 / 2 then f else if 1 / 2 < d then f + 1 else if even f then f else f + 1)"

definition binade :: "real \<Rightarrow> int" where
  "binade x = \<lfloor>log 2 \<bar>x\<bar>\<rfloor>"

definition fl :: "real \<Rightarrow> real" where
  "fl x =
     (if x = 0 then 0
      else of_int (rne (x / 2 powi (binade x - 52))) * 2 powi (binade x - 52))"

subsection \<open>Data model\<close>

datatype Status = cold | warming | hot | optimized

text \<open>
  \<^verbatim>\<open>interface ExecutionStats\<close>. The simulated page declares the first five fields,
  the measured page declares the same five followed by \<^verbatim>\<open>firstTime\<close> and
  \<^verbatim>\<open>bestTime\<close>.
\<close>

record ExecutionStats =
  callCount :: nat
  totalTime :: real
  avgTime :: real
  status :: Status
  optimizationLevel :: real

record MeasuredStats = ExecutionStats +
  firstTime :: "real option"
  bestTime :: "real option"

text \<open>
  \<^verbatim>\<open>interface FunctionRecord\<close>. The simulated page declares the first four fields,
  the measured page adds the workload callback \<^verbatim>\<open>execute\<close> (of an arbitrary type
  \<open>'w\<close> here: a sample never inspects it) and \<^verbatim>\<open>iterations\<close>.
\<close>

record 's FunctionRecord =
  name :: string
  code :: string
  stats :: 's
  history :: "real list"

record ('s, 'w) MeasuredRecord = "'s FunctionRecord" +
  execute :: 'w
  iterations :: nat

type_synonym SimFunction = "ExecutionStats FunctionRecord"
type_synonym 'w RealFunction = "(MeasuredStats, 'w) MeasuredRecord"

definition OPTIMIZATION_THRESHOLD :: nat where
  "OPTIMIZATION_THRESHOLD = 5"

definition HOT_THRESHOLD :: nat where
  "HOT_THRESHOLD = 10"

definition OPTIMIZED_THRESHOLD :: nat where
  "OPTIMIZED_THRESHOLD = 20"

subsection \<open>Log\<close>

text \<open>
  The messages passed to \<^verbatim>\<open>addLog\<close>, one constructor for each template:
  \<^item> \<open>FirstExecution n t\<close>: "n first execution: t ms" (measured page);
  \<^item> \<open>NewBest n t p\<close>: "n new best: t ms (-p%)" (measured page), where \<open>p\<close> is
    \<^term>\<open>None\<close> when the percentage is JavaScript's \<^verbatim>\<open>Infinity\<close>;
  \<^item> \<open>OptimizedSpeedup n s\<close>: "n fully optimized! Speedup: s%" (measured page),
    where \<open>s\<close> is \<^term>\<open>None\<close> for the text "?";
  \<^item> \<open>HotV8 n\<close>: "n marked as HOT! V8 is aggressively optimizing." (measured page);
  \<^item> \<open>WarmingJIT n\<close>: "n warming up. JIT type profiling active." (measured page);
  \<^item> \<open>OptimizedNative n\<close>: "n fully optimized! Native machine code generated."
    (simulated page);
  \<^item> \<open>HotAggressive n\<close>: "n marked as HOT! Aggressive optimizations applied."
    (simulated page);
  \<^item> \<open>WarmingProfiling n\<close>: "n warming up. Type profiling started." (simulated page);
  \<^item> \<open>StateReset\<close>: "JIT state reset. All functions back to cold state.";
  \<^item> \<open>OtherMessage s\<close>: any other text (the start and end lines of a timed run).
\<close>

datatype Message =
    FirstExecution string real
  | NewBest string real "real option"
  | OptimizedSpeedup string "real option"
  | HotV8 string
  | WarmingJIT string
  | OptimizedNative string
  | HotAggressive string
  | WarmingProfiling string
  | StateReset
  | OtherMessage string

type_synonym LogLine = "string \<times> Message"

text \<open>
  \<^verbatim>\<open>xs.slice(-n)\<close> of JavaScript, for a positive \<open>n\<close>: the last \<open>n\<close> elements,
  or all of \<open>xs\<close> when it has fewer (the subtraction on \<^typ>\<open>nat\<close> stops at 0, as
  the start index \<^verbatim>\<open>max(len - n, 0)\<close> of \<^verbatim>\<open>slice\<close> does).
\<close>

definition slice_last :: "nat \<Rightarrow> 'a list \<Rightarrow> 'a list" where
  "slice_last n xs = drop (length xs - n) xs"

text \<open>
  \<^verbatim>\<open>addLog\<close>, the same in both pages:
  \<^verbatim>\<open>setLogs((prev) => [...prev.slice(-50), `[${time}] ${message}`])\<close>.
  The clock text \<open>now\<close> is \<^verbatim>\<open>new Date().toLocaleTimeString()\<close>.
\<close>

definition addLog :: "string \<Rightarrow> Message \<Rightarrow> LogLine list \<Rightarrow> LogLine list" where
  "addLog now message prev = slice_last 50 prev @ [(now, message)]"

text \<open>Several calls of \<^verbatim>\<open>addLog\<close> in a row, each with its clock text.\<close>

fun addLogs :: "LogLine list \<Rightarrow> LogLine list \<Rightarrow> LogLine list" where
  "addLogs [] prev = prev"
| "addLogs ((now, message) # rest) prev = addLogs rest (addLog now message prev)"

text \<open>
  The status a transition message announces, with the name of the function; no
  value for the messages that are not about a change of status.
\<close>

fun transitionOf :: "Message \<Rightarrow> (string \<times> Status) option" where
  "transitionOf (OptimizedSpeedup n s) = Some (n, optimized)"
| "transitionOf (HotV8 n) = Some (n, hot)"
| "transitionOf (WarmingJIT n) = Some (n, warming)"
| "transitionOf (OptimizedNative n) = Some (n, optimized)"
| "transitionOf (HotAggressive n) = Some (n, hot)"
| "transitionOf (WarmingProfiling n) = Some (n, warming)"
| "transitionOf (FirstExecution n t) = None"
| "transitionOf (NewBest n t p) = None"
| "transitionOf StateReset = None"
| "transitionOf (OtherMessage s) = None"

subsection \<open>The measured page: \<^verbatim>\<open>executeFunction\<close>\<close>

text \<open>
  \<^verbatim>\<open>x.toFixed(1)\<close> read back by \<^verbatim>\<open>Number\<close>: the sign is set aside, the
  magnitude is rounded to the nearest tenth, the larger one at a tie.
\<close>

definition toFixed1 :: "real \<Rightarrow> real" where
  "toFixed1 x =
     (if x < 0 then - (of_int \<lfloor>(- x) * 10 + 1 / 2\<rfloor> / 10)
      else of_int \<lfloor>x * 10 + 1 / 2\<rfloor> / 10)"

text \<open>
  The percentage of a new best time,
  \<^verbatim>\<open>((stats.bestTime - executionTime) / stats.bestTime * 100).toFixed(1)\<close>, computed
  only when \<^verbatim>\<open>executionTime < stats.bestTime\<close>. With a best time of 0 the
  quotient of JavaScript is \<^verbatim>\<open>Infinity\<close>, here \<^term>\<open>None\<close>.
\<close>

definition improvement :: "real \<Rightarrow> real \<Rightarrow> real option" where
  "improvement best executionTime =
     (if best = 0 then None
      else Some (toFixed1 (fl (fl (fl (best - executionTime) / best) * 100))))"

text \<open>
  \<^verbatim>\<open>Number(improvement) > 5\<close>: the decimal is read back as the nearest double;
  \<^verbatim>\<open>Infinity > 5\<close> holds.
\<close>

definition improvementOver5 :: "real option \<Rightarrow> bool" where
  "improvementOver5 p = (case p of None \<Rightarrow> True | Some v \<Rightarrow> fl v > 5)"

text \<open>
  The speedup of the "fully optimized" line:
  \<^verbatim>\<open>stats.firstTime && stats.bestTime ? (...).toFixed(1) : "?"\<close>. A time is
  truthy when it is neither \<^verbatim>\<open>null\<close> nor 0.
\<close>

definition speedup :: "real option \<Rightarrow> real option \<Rightarrow> real option" where
  "speedup first best =
     (case first of
        None \<Rightarrow> None
      | Some f \<Rightarrow>
          (case best of
             None \<Rightarrow> None
           | Some b \<Rightarrow>
               if f = 0 \<or> b = 0 then None
               else Some (toFixed1 (fl (fl (fl (f - b) / f) * 100)))))"

text \<open>
  "Track first and best times for comparison": the first \<^verbatim>\<open>if\<close> sets
  \<^verbatim>\<open>firstTime\<close> when it is \<^verbatim>\<open>null\<close> and logs the first execution.
\<close>

definition trackFirst ::
  "string \<Rightarrow> real \<Rightarrow> MeasuredStats \<Rightarrow> MeasuredStats \<times> Message list" where
  "trackFirst fname executionTime s =
     (if firstTime s = None
      then (s\<lparr>firstTime := Some executionTime\<rparr>, [FirstExecution fname executionTime])
      else (s, []))"

text \<open>
  The second \<^verbatim>\<open>if\<close>: \<^verbatim>\<open>bestTime\<close> is replaced when it is \<^verbatim>\<open>null\<close> or
  the new time is strictly lower; the "new best" line is logged only when there
  was a best time and the rounded percentage is above 5.
\<close>

definition trackBest ::
  "string \<Rightarrow> real \<Rightarrow> MeasuredStats \<Rightarrow> MeasuredStats \<times> Message list" where
  "trackBest fname executionTime s =
     (case bestTime s of
        None \<Rightarrow> (s\<lparr>bestTime := Some executionTime\<rparr>, [])
      | Some b \<Rightarrow>
          if executionTime < b
          then (s\<lparr>bestTime := Some executionTime\<rparr>,
                if improvementOver5 (improvement b executionTime)
                then [NewBest fname executionTime (improvement b executionTime)]
                else [])
          else (s, []))"

text \<open>
  \<^verbatim>\<open>stats.callCount += 1; stats.totalTime += executionTime;
  stats.avgTime = stats.totalTime / stats.callCount;\<close>
\<close>

definition accumulate :: "real \<Rightarrow> MeasuredStats \<Rightarrow> MeasuredStats" where
  "accumulate executionTime s =
     (let s1 = s\<lparr>callCount := callCount s + 1\<rparr>;
          s2 = s1\<lparr>totalTime := fl (totalTime s1 + executionTime)\<rparr>
      in s2\<lparr>avgTime := fl (totalTime s2 / real (callCount s2))\<rparr>)"

text \<open>
  "Calculate real optimization level based on improvement from first execution":
  under the guard \<^verbatim>\<open>stats.firstTime !== null && stats.firstTime > 0\<close>,
  \<^verbatim>\<open>improvementRatio = 1 - (stats.bestTime ?? stats.firstTime) / stats.firstTime\<close>
  and the level is \<^verbatim>\<open>Math.min(5, Math.max(0, improvementRatio * 20))\<close>.
\<close>

definition improvementRatio :: "real \<Rightarrow> real option \<Rightarrow> real" where
  "improvementRatio first best =
     fl (1 - fl ((case best of None \<Rightarrow> first | Some b \<Rightarrow> b) / first))"

definition updateLevel :: "MeasuredStats \<Rightarrow> MeasuredStats" where
  "updateLevel s =
     (case firstTime s of
        None \<Rightarrow> s
      | Some f \<Rightarrow>
          if f > 0
          then s\<lparr>optimizationLevel :=
                   min 5 (max 0 (fl (improvementRatio f (bestTime s) * 20)))\<rparr>
          else s)"

text \<open>
  "Update optimization status based on call count AND real performance": the
  chain of three threshold tests on the updated \<^verbatim>\<open>callCount\<close>. A branch logs
  its line when the status differs from the one it sets; below the first
  threshold nothing is assigned.
\<close>

definition updateStatus ::
  "string \<Rightarrow> MeasuredStats \<Rightarrow> MeasuredStats \<times> Message list" where
  "updateStatus fname s =
     (if callCount s \<ge> OPTIMIZED_THRESHOLD
      then (s\<lparr>status := optimized\<rparr>,
            if status s \<noteq> optimized
            then [OptimizedSpeedup fname (speedup (firstTime s) (bestTime s))]
            else [])
      else if callCount s \<ge> HOT_THRESHOLD
      then (s\<lparr>status := hot\<rparr>, if status s \<noteq> hot then [HotV8 fname] else [])
      else if callCount s \<ge> OPTIMIZATION_THRESHOLD
      then (s\<lparr>status := warming\<rparr>, if status s \<noteq> warming then [WarmingJIT fname] else [])
      else (s, []))"

text \<open>
  The updater of \<^verbatim>\<open>executeFunction(funcIndex)\<close>, given the measured time of the
  batch of \<^verbatim>\<open>func.iterations\<close> calls of \<^verbatim>\<open>func.execute\<close>. It returns the new
  list of records and the messages logged. The index comes from a button of an
  existing record or from \<^verbatim>\<open>Math.floor(Math.random() * functions.length)\<close>; an
  index outside the list is not a sample and has the value \<^term>\<open>None\<close>. The
  workload is taken to return: one that throws leaves the updater before any
  field is assigned.
\<close>

definition executeFunction ::
  "nat \<Rightarrow> real \<Rightarrow> 'w RealFunction list \<Rightarrow> ('w RealFunction list \<times> Message list) option" where
  "executeFunction funcIndex executionTime prev =
     (if funcIndex < length prev
      then
        (let func = prev ! funcIndex;
             (s1, log1) = trackFirst (name func) executionTime (stats func);
             (s2, log2) = trackBest (name func) executionTime s1;
             s3 = accumulate executionTime s2;
             s4 = updateLevel s3;
             (s5, log3) = updateStatus (name func) s4;
             func1 = func\<lparr>stats := s5\<rparr>;
             func2 = func1\<lparr>history := slice_last 30 (history func1) @ [executionTime]\<rparr>
         in Some (prev[funcIndex := func2], log1 @ log2 @ log3))
      else None)"

text \<open>
  The statistics of the sampled record after \<^verbatim>\<open>executeFunction\<close>, and the
  messages it logs: the steps of the updater in their order.
\<close>

definition sampleStats :: "string \<Rightarrow> real \<Rightarrow> MeasuredStats \<Rightarrow> MeasuredStats" where
  "sampleStats n t s =
     fst (updateStatus n (updateLevel (accumulate t
       (fst (trackBest n t (fst (trackFirst n t s)))))))"

definition sampleMessages :: "string \<Rightarrow> real \<Rightarrow> MeasuredStats \<Rightarrow> Message list" where
  "sampleMessages n t s =
     snd (trackFirst n t s) @ snd (trackBest n t (fst (trackFirst n t s)))
     @ snd (updateStatus n (updateLevel (accumulate t
         (fst (trackBest n t (fst (trackFirst n t s)))))))"

text \<open>
  \<^verbatim>\<open>resetAll\<close> of the measured page: every record gets the zero statistics and
  an empty history, the log is emptied and the reset line is logged.
\<close>

definition resetStats :: MeasuredStats where
  "resetStats =
     \<lparr>callCount = 0, totalTime = 0, avgTime = 0, status = cold, optimizationLevel = 0,
      firstTime = None, bestTime = None\<rparr>"

definition resetFunctions :: "'w RealFunction list \<Rightarrow> 'w RealFunction list" where
  "resetFunctions prev = map (\<lambda>f. f\<lparr>stats := resetStats, history := []\<rparr>) prev"

definition resetAll ::
  "string \<Rightarrow> 'w RealFunction list \<times> LogLine list \<Rightarrow> 'w RealFunction list \<times> LogLine list" where
  "resetAll now st = (resetFunctions (fst st), addLog now StateReset [])"

text \<open>
  Samples applied one after the other, each an index and a measured time, as the
  timed run and the buttons do. The messages of all samples are collected in
  order.
\<close>

fun executeSamples ::
  "(nat \<times> real) list \<Rightarrow> 'w RealFunction list \<Rightarrow> ('w RealFunction list \<times> Message list) option" where
  "executeSamples [] fs = Some (fs, [])"
| "executeSamples ((i, t) # rest) fs =
     (case executeFunction i t fs of
        None \<Rightarrow> None
      | Some (fs1, log1) \<Rightarrow>
          (case executeSamples rest fs1 of
             None \<Rightarrow> None
           | Some (fs2, log2) \<Rightarrow> Some (fs2, log1 @ log2)))"

subsection \<open>The simulated page: \<^verbatim>\<open>simulateExecution\<close>\<close>

text \<open>
  "Simulate execution time (decreases as optimization level increases)", with
  \<open>random\<close> the value of \<^verbatim>\<open>Math.random()\<close>:
  \<^verbatim>\<open>baseTime = Math.random() * 100 + 50\<close>,
  \<^verbatim>\<open>optimizationFactor = 1 - stats.optimizationLevel * 0.15\<close>,
  \<^verbatim>\<open>executionTime = Math.max(5, baseTime * optimizationFactor)\<close>.
\<close>

definition baseTime :: "real \<Rightarrow> real" where
  "baseTime random = fl (fl (random * 100) + 50)"

definition optimizationFactor :: "real \<Rightarrow> real" where
  "optimizationFactor level = fl (1 - fl (level * fl 0.15))"

definition simulatedTime :: "real \<Rightarrow> real \<Rightarrow> real" where
  "simulatedTime random level = max 5 (fl (baseTime random * optimizationFactor level))"

definition accumulateSim :: "real \<Rightarrow> ExecutionStats \<Rightarrow> ExecutionStats" where
  "accumulateSim executionTime s =
     (let s1 = s\<lparr>callCount := callCount s + 1\<rparr>;
          s2 = s1\<lparr>totalTime := fl (totalTime s1 + executionTime)\<rparr>
      in s2\<lparr>avgTime := fl (totalTime s2 / real (callCount s2))\<rparr>)"

text \<open>
  "Update optimization status based on call count": the same chain of threshold
  tests; each branch also raises the level by its step, up to its ceiling.
\<close>

definition updateStatusSim ::
  "string \<Rightarrow> ExecutionStats \<Rightarrow> ExecutionStats \<times> Message list" where
  "updateStatusSim fname s =
     (if callCount s \<ge> OPTIMIZED_THRESHOLD
      then (s\<lparr>status := optimized,
               optimizationLevel := min 5 (fl (optimizationLevel s + fl 0.5))\<rparr>,
            if status s \<noteq> optimized then [OptimizedNative fname] else [])
      else if callCount s \<ge> HOT_THRESHOLD
      then (s\<lparr>status := hot,
               optimizationLevel := min 4 (fl (optimizationLevel s + fl 0.3))\<rparr>,
            if status s \<noteq> hot then [HotAggressive fname] else [])
      else if callCount s \<ge> OPTIMIZATION_THRESHOLD
      then (s\<lparr>status := warming,
               optimizationLevel := min 2 (fl (optimizationLevel s + fl 0.2))\<rparr>,
            if status s \<noteq> warming then [WarmingProfiling fname] else [])
      else (s, []))"

definition simulateExecution ::
  "nat \<Rightarrow> real \<Rightarrow> SimFunction list \<Rightarrow> (SimFunction list \<times> Message list) option" where
  "simulateExecution funcIndex random prev =
     (if funcIndex < length prev
      then
        (let func = prev ! funcIndex;
             executionTime = simulatedTime random (optimizationLevel (stats func));
             s1 = accumulateSim executionTime (stats func);
             (s2, log1) = updateStatusSim (name func) s1;
             func1 = func\<lparr>stats := s2\<rparr>;
             func2 = func1\<lparr>history := slice_last 20 (history func1) @ [executionTime]\<rparr>
         in Some (prev[funcIndex := func2], log1))
      else None)"

text \<open>
  The statistics of the sampled record after \<^verbatim>\<open>simulateExecution\<close>, and the
  messages it logs.
\<close>

definition sampleStatsSim :: "string \<Rightarrow> real \<Rightarrow> ExecutionStats \<Rightarrow> ExecutionStats" where
  "sampleStatsSim n r s =
     fst (updateStatusSim n (accumulateSim (simulatedTime r (optimizationLevel s)) s))"

definition sampleMessagesSim :: "string \<Rightarrow> real \<Rightarrow> ExecutionStats \<Rightarrow> Message list" where
  "sampleMessagesSim n r s =
     snd (updateStatusSim n (accumulateSim (simulatedTime r (optimizationLevel s)) s))"

text \<open>\<^verbatim>\<open>resetAll\<close> of the simulated page.\<close>

definition resetStatsSim :: ExecutionStats where
  "resetStatsSim =
     \<lparr>callCount = 0, totalTime = 0, avgTime = 0, status = cold, optimizationLevel = 0\<rparr>"

definition resetFunctionsSim :: "SimFunction list \<Rightarrow> SimFunction list" where
  "resetFunctionsSim prev = map (\<lambda>f. f\<lparr>stats := resetStatsSim, history := []\<rparr>) prev"

definition resetAllSim ::
  "string \<Rightarrow> SimFunction list \<times> LogLine list \<Rightarrow> SimFunction list \<times> LogLine list" where
  "resetAllSim now st = (resetFunctionsSim (fst st), addLog now StateReset [])"

fun simulateSamples ::
  "(nat \<times> real) list \<Rightarrow> SimFunction list \<Rightarrow> (SimFunction list \<times> Message list) option" where
  "simulateSamples [] fs = Some (fs, [])"
| "simulateSamples ((i, r) # rest) fs =
     (case simulateExecution i r fs of
        None \<Rightarrow> None
      | Some (fs1, log1) \<Rightarrow>
          (case simulateSamples rest fs1 of
             None \<Rightarrow> None
           | Some (fs2, log2) \<Rightarrow> Some (fs2, log1 @ log2)))"

subsection \<open>The classifier in the words of the specification\<close>

text \<open>
  The table of the specification: below 5 cold, from 5 and below 10 warming, from
  10 and below 20 hot, from 20 optimized. The source has no such function; its
  samplers assign the status in the branches above.
\<close>

definition classify :: "nat \<Rightarrow> Status" where
  "classify n =
     (if n < 5 then cold else if n < 10 then warming else if n < 20 then hot else optimized)"

text \<open>The order cold < warming < hot < optimized, as a rank.\<close>

fun rank :: "Status \<Rightarrow> nat" where
  "rank cold = 0"
| "rank warming = 1"
| "rank hot = 2"
| "rank optimized = 3"

text \<open>\<^verbatim>\<open>clamp(lo, hi, x)\<close> of the specification.\<close>

definition clamp :: "real \<Rightarrow> real \<Rightarrow> real \<Rightarrow> real" where
  "clamp lo hi x = (if x < lo then lo else if hi < x then hi else x)"

subsection \<open>Invariants of the statistics\<close>

text \<open>
  The first and the best time of a record of the measured page are both unset, or
  both set with the best time at most the first time.
\<close>

definition timesInv :: "MeasuredStats \<Rightarrow> bool" where
  "timesInv s =
     (case firstTime s of
        None \<Rightarrow> bestTime s = None
      | Some f \<Rightarrow> (case bestTime s of None \<Rightarrow> False | Some b \<Rightarrow> b \<le> f))"

text \<open>
  The ceiling of the level in each status of the simulated page: the caps 2, 4
  and 5 of the three branches, and 0 while the record is cold.
\<close>

definition tierCeiling :: "Status \<Rightarrow> real" where
  "tierCeiling st = (case st of cold \<Rightarrow> 0 | warming \<Rightarrow> 2 | hot \<Rightarrow> 4 | optimized \<Rightarrow> 5)"

text \<open>
  The statistics of a record of the simulated page: the status is the one of the
  thresholds, and the level is a double between 0 and the ceiling of the status.
\<close>

definition levelInv :: "ExecutionStats \<Rightarrow> bool" where
  "levelInv s =
     (status s = classify (callCount s) \<and> 0 \<le> optimizationLevel s \<and>
      optimizationLevel s \<le> tierCeiling (status s) \<and>
      fl (optimizationLevel s) = optimizationLevel s)"

section \<open>Lemmas\<close>

subsection \<open>Rounding\<close>

lemma rne_of_int: "rne (of_int k) = k"
  by (simp add: rne_def)

lemma rne_bounds: "\<lfloor>y\<rfloor> \<le> rne y \<and> rne y \<le> \<lfloor>y\<rfloor> + 1"
  by (simp add: rne_def Let_def)

lemma rne_mono:
  assumes "y \<le> z"
  shows "rne y \<le> rne z"
proof (cases "\<lfloor>y\<rfloor> = \<lfloor>z\<rfloor>")
  case True
  with assms show ?thesis
    by (simp add: rne_def Let_def)
next
  case False
  with assms have "\<lfloor>y\<rfloor> < \<lfloor>z\<rfloor>"
    using floor_mono [of y z] by simp
  with rne_bounds [of y] rne_bounds [of z] show ?thesis by linarith
qed

lemma rne_ge: "of_int k \<le> y \<Longrightarrow> k \<le> rne y"
  using rne_mono [of "of_int k" y] by (simp add: rne_of_int)

lemma rne_le: "y \<le> of_int k \<Longrightarrow> rne y \<le> k"
  using rne_mono [of y "of_int k"] by (simp add: rne_of_int)

lemma binade_bounds:
  assumes "x \<noteq> 0"
  shows "2 powi binade x \<le> \<bar>x\<bar> \<and> \<bar>x\<bar> < 2 powi (binade x + 1)"
proof -
  from assms have pos: "0 < \<bar>x\<bar>" by simp
  have "\<lfloor>log 2 \<bar>x\<bar>\<rfloor> = binade x" by (simp add: binade_def)
  with floor_log_eq_powr_iff [OF pos, of 2 "binade x"]
  have "2 powr (of_int (binade x)) \<le> \<bar>x\<bar> \<and> \<bar>x\<bar> < 2 powr (of_int (binade x) + 1)"
    by simp
  moreover have "(2 :: real) powr (of_int (binade x)) = 2 powi binade x"
    by (simp add: powr_real_of_int')
  moreover have "(2 :: real) powr (of_int (binade x) + 1) = 2 powi (binade x + 1)"
    using powr_real_of_int' [of 2 "binade x + 1"] by simp
  ultimately show ?thesis by simp
qed

lemma binade_unique:
  assumes "2 powi k \<le> \<bar>x\<bar>" and "\<bar>x\<bar> < 2 powi (k + 1)"
  shows "binade x = k"
proof -
  from assms(1) have pos: "0 < \<bar>x\<bar>"
    using zero_less_power_int [of "2 :: real" k] by linarith
  have a: "(2 :: real) powr (of_int k) = 2 powi k"
    by (simp add: powr_real_of_int')
  have b: "(2 :: real) powr (of_int k + 1) = 2 powi (k + 1)"
    using powr_real_of_int' [of 2 "k + 1"] by simp
  from assms a b have "2 powr (of_int k) \<le> \<bar>x\<bar> \<and> \<bar>x\<bar> < 2 powr (of_int k + 1)"
    by simp
  with floor_log_eq_powr_iff [OF pos, of 2 k] show ?thesis
    by (simp add: binade_def)
qed

lemma powi_split: "(2 :: real) powi (k + 1) = 2 powi (k - 52) * 2 ^ 53"
  and powi_split0: "(2 :: real) powi k = 2 powi (k - 52) * 2 ^ 52"
proof -
  have "(2 :: real) powi (k + 1) = 2 powi ((k - 52) + 53)"
    by (rule arg_cong [of _ _ "\<lambda>n. (2 :: real) powi n"]) simp
  also have "\<dots> = 2 powi (k - 52) * 2 powi 53"
    by (rule power_int_add) simp
  finally show "(2 :: real) powi (k + 1) = 2 powi (k - 52) * 2 ^ 53" by simp
  have "(2 :: real) powi k = 2 powi ((k - 52) + 52)"
    by (rule arg_cong [of _ _ "\<lambda>n. (2 :: real) powi n"]) simp
  also have "\<dots> = 2 powi (k - 52) * 2 powi 52"
    by (rule power_int_add) simp
  finally show "(2 :: real) powi k = 2 powi (k - 52) * 2 ^ 52" by simp
qed

text \<open>The scaled value of a positive number lies between \<open>2 ^ 52\<close> and \<open>2 ^ 53\<close>.\<close>

lemma scaled_bounds:
  assumes "2 powi k \<le> (x :: real)" and "x < 2 powi (k + 1)"
  shows "2 ^ 52 \<le> x / 2 powi (k - 52) \<and> x / 2 powi (k - 52) < 2 ^ 53"
proof -
  define u :: real where "u = 2 powi (k - 52)"
  define lo :: real where "lo = 2 ^ 52"
  define hi :: real where "hi = 2 ^ 53"
  have u: "0 < u" by (simp add: u_def)
  have "2 powi k = u * lo" unfolding u_def lo_def by (rule powi_split0)
  with assms(1) have "lo * u \<le> x" by (simp add: mult.commute)
  with u have a: "lo \<le> x / u" by (simp add: pos_le_divide_eq)
  have "2 powi (k + 1) = u * hi" unfolding u_def hi_def by (rule powi_split)
  with assms(2) have "x < hi * u" by (simp add: mult.commute)
  with u have b: "x / u < hi" by (simp add: pos_divide_less_eq)
  from a b show ?thesis unfolding u_def lo_def hi_def by (rule conjI)
qed

lemma fl_eval:
  assumes "2 powi k \<le> \<bar>x\<bar>" and "\<bar>x\<bar> < 2 powi (k + 1)"
  shows "fl x = of_int (rne (x / 2 powi (k - 52))) * 2 powi (k - 52)"
proof -
  have "0 < (2 :: real) powi k" by simp
  with assms(1) have "0 < \<bar>x\<bar>" by linarith
  then have "x \<noteq> 0" by simp
  with binade_unique [OF assms] show ?thesis by (simp add: fl_def)
qed

lemma fl_pos_bounds:
  assumes "2 powi k \<le> x" and "x < 2 powi (k + 1)"
  shows "2 powi k \<le> fl x \<and> fl x \<le> 2 powi (k + 1)"
proof -
  define u :: real where "u = 2 powi (k - 52)"
  define r :: int where "r = rne (x / u)"
  have u: "0 < u" by (simp add: u_def)
  have "0 < (2 :: real) powi k" by simp
  with assms(1) have "0 < x" by linarith
  then have "\<bar>x\<bar> = x" by simp
  with assms have "2 powi k \<le> \<bar>x\<bar>" and "\<bar>x\<bar> < 2 powi (k + 1)"
    by simp_all
  then have e: "fl x = of_int r * u"
    unfolding r_def u_def by (rule fl_eval)
  from scaled_bounds [OF assms]
  have lo: "(of_int (2 ^ 52) :: real) \<le> x / u" and hi: "x / u \<le> of_int (2 ^ 53)"
    by (simp_all add: u_def)
  have "2 ^ 52 \<le> r" unfolding r_def using lo by (rule rne_ge)
  moreover have "r \<le> 2 ^ 53" unfolding r_def using hi by (rule rne_le)
  ultimately have "(2 ^ 52 :: real) \<le> of_int r" and "(of_int r :: real) \<le> 2 ^ 53"
    by simp_all
  with u have "2 ^ 52 * u \<le> of_int r * u" and "of_int r * u \<le> 2 ^ 53 * u"
    by (simp_all only: mult_le_cancel_right_pos)
  moreover have "2 powi k = 2 ^ 52 * u"
    unfolding u_def by (subst mult.commute) (rule powi_split0)
  moreover have "2 powi (k + 1) = 2 ^ 53 * u"
    unfolding u_def by (subst mult.commute) (rule powi_split)
  ultimately show ?thesis by (simp only: e)
qed

lemma fl_0: "fl 0 = 0"
  by (simp add: fl_def)

lemma fl_nonneg:
  assumes "0 \<le> x"
  shows "0 \<le> fl x"
proof (cases "x = 0")
  case True
  then show ?thesis by (simp add: fl_def)
next
  case False
  with assms have "2 powi binade x \<le> x" and "x < 2 powi (binade x + 1)"
    using binade_bounds [of x] by simp_all
  from fl_pos_bounds [OF this] zero_less_power_int [of "2 :: real" "binade x"]
  show ?thesis by linarith
qed

lemma fl_nonpos:
  assumes "x \<le> 0"
  shows "fl x \<le> 0"
proof (cases "x = 0")
  case True
  then show ?thesis by (simp add: fl_def)
next
  case False
  let ?u = "(2 :: real) powi (binade x - 52)"
  have u: "0 < ?u" by simp
  from False assms have "x / ?u < 0" by (simp add: divide_neg_pos)
  then have "x / ?u \<le> of_int 0" by simp
  then have "rne (x / ?u) \<le> 0" by (rule rne_le)
  then have "(of_int (rne (x / ?u)) :: real) \<le> 0" by simp
  with u have "of_int (rne (x / ?u)) * ?u \<le> 0"
    by (simp add: mult_le_0_iff)
  with False show ?thesis by (simp add: fl_def)
qed

lemma fl_mono_pos:
  assumes "0 < x" and "x \<le> y"
  shows "fl x \<le> fl y"
proof -
  from assms have ypos: "0 < y" by simp
  let ?k = "binade x" and ?l = "binade y"
  from assms(1) have bx: "2 powi ?k \<le> x" "x < 2 powi (?k + 1)"
    using binade_bounds [of x] by simp_all
  from ypos have "by": "2 powi ?l \<le> y" "y < 2 powi (?l + 1)"
    using binade_bounds [of y] by simp_all
  have kl: "?k \<le> ?l"
    unfolding binade_def using assms by (intro floor_mono) simp
  show ?thesis
  proof (cases "?k = ?l")
    case True
    let ?u = "(2 :: real) powi (?k - 52)"
    have u: "0 < ?u" by simp
    from assms(2) u have "x / ?u \<le> y / ?u" by (simp add: divide_right_mono)
    then have "rne (x / ?u) \<le> rne (y / ?u)" by (rule rne_mono)
    then have "(of_int (rne (x / ?u)) :: real) * ?u \<le> of_int (rne (y / ?u)) * ?u"
      using u by (simp add: mult_right_mono)
    with True assms ypos show ?thesis by (simp add: fl_def)
  next
    case False
    with kl have "?k + 1 \<le> ?l" by simp
    then have "(2 :: real) powi (?k + 1) \<le> 2 powi ?l"
      by (intro power_int_increasing) simp_all
    with fl_pos_bounds [OF bx] fl_pos_bounds [OF "by"] show ?thesis by linarith
  qed
qed

lemma fl_mono_nonneg:
  assumes "0 \<le> x" and "x \<le> y"
  shows "fl x \<le> fl y"
proof (cases "x = 0")
  case True
  with assms fl_nonneg [of y] show ?thesis by (simp add: fl_0)
next
  case False
  with assms show ?thesis by (simp add: fl_mono_pos)
qed

lemma powi_less_exp:
  assumes "(2 :: real) powi a < 2 powi b"
  shows "a < b"
proof (rule ccontr)
  assume "\<not> a < b"
  then have "b \<le> a" by simp
  then have "(2 :: real) powi b \<le> 2 powi a"
    by (intro power_int_increasing) simp_all
  with assms show False by simp
qed

text \<open>A value with a significand below \<open>2 ^ 53\<close> is its own rounding.\<close>

lemma fl_repr:
  assumes "\<bar>m\<bar> < 2 ^ 53"
  shows "fl (of_int m * 2 powi j) = of_int m * 2 powi j"
proof (cases "m = 0")
  case True
  then show ?thesis by (simp add: fl_def)
next
  case False
  define x :: real where "x = of_int m * 2 powi j"
  define k where "k = binade x"
  have x0: "x \<noteq> 0" using False by (simp add: x_def)
  have absx: "\<bar>x\<bar> = of_int \<bar>m\<bar> * 2 powi j"
    by (simp add: x_def abs_mult)
  from assms have "(of_int \<bar>m\<bar> :: real) < of_int (2 ^ 53)"
    by (simp only: of_int_less_iff)
  then have "(of_int \<bar>m\<bar> :: real) * 2 powi j < 2 ^ 53 * 2 powi j"
    by (simp add: mult_less_cancel_right_pos)
  also have "\<dots> = 2 powi (j + 53)"
    by (subst power_int_add) simp_all
  finally have "\<bar>x\<bar> < 2 powi (j + 53)" by (simp only: absx)
  with binade_bounds [OF x0] have "(2 :: real) powi k < 2 powi (j + 53)"
    unfolding k_def by linarith
  then have "k < j + 53" by (rule powi_less_exp)
  then have d: "0 \<le> j - (k - 52)" by simp
  have "x / 2 powi (k - 52) = of_int m * (2 powi j / 2 powi (k - 52))"
    by (simp add: x_def)
  also have "2 powi j / 2 powi (k - 52) = (2 :: real) powi (j - (k - 52))"
    by (subst power_int_diff) simp_all
  also have "\<dots> = 2 ^ nat (j - (k - 52))"
    using d by (rule power_int_nonneg_exp)
  also have "of_int m * 2 ^ nat (j - (k - 52)) = (of_int (m * 2 ^ nat (j - (k - 52))) :: real)"
    by simp
  finally have "rne (x / 2 powi (k - 52)) = m * 2 ^ nat (j - (k - 52))"
    by (simp only: rne_of_int)
  then have "fl x = of_int (m * 2 ^ nat (j - (k - 52))) * 2 powi (k - 52)"
    using x0 by (simp add: fl_def k_def)
  also have "\<dots> = of_int m * (2 ^ nat (j - (k - 52)) * 2 powi (k - 52))"
    by simp
  also have "(2 :: real) ^ nat (j - (k - 52)) = 2 powi (j - (k - 52))"
    using d by (rule power_int_nonneg_exp [symmetric])
  also have "(2 :: real) powi (j - (k - 52)) * 2 powi (k - 52) = 2 powi ((j - (k - 52)) + (k - 52))"
    by (subst power_int_add) simp_all
  also have "(j - (k - 52)) + (k - 52) = j" by simp
  finally show ?thesis by (simp only: x_def)
qed

lemma fl_of_int: "\<bar>m\<bar> < 2 ^ 53 \<Longrightarrow> fl (of_int m) = of_int m"
  using fl_repr [of m 0] by simp

lemma fl_numeral: "(numeral n :: int) < 2 ^ 53 \<Longrightarrow> fl (numeral n) = numeral n"
  using fl_of_int [of "numeral n"] by simp

lemma fl_1: "fl 1 = 1"
  using fl_of_int [of 1] by simp

lemma fl_numeral_half: "(numeral n :: int) < 2 ^ 53 \<Longrightarrow> fl (numeral n / 2) = numeral n / 2"
  using fl_repr [of "numeral n" "- 1"] by simp

lemma fl_numeral_quarter: "(numeral n :: int) < 2 ^ 53 \<Longrightarrow> fl (numeral n / 4) = numeral n / 4"
  using fl_repr [of "numeral n" "- 2"] by simp

lemma fl_idem: "fl (fl x) = fl x"
proof (cases "x = 0")
  case True
  then show ?thesis by (simp add: fl_def)
next
  case False
  define k where "k = binade x"
  define u :: real where "u = 2 powi (k - 52)"
  define r where "r = rne (x / u)"
  have u: "0 < u" by (simp add: u_def)
  have e: "fl x = of_int r * u"
    using False by (simp add: fl_def k_def u_def r_def)
  from binade_bounds [OF False]
  have "2 ^ 52 \<le> \<bar>x\<bar> / u \<and> \<bar>x\<bar> / u < 2 ^ 53"
    unfolding u_def k_def by (intro scaled_bounds) simp_all
  then have sb: "(of_int (2 ^ 52) :: real) \<le> \<bar>x / u\<bar>" "\<bar>x / u\<bar> \<le> of_int (2 ^ 53)"
    using u by (simp_all add: abs_divide)
  have "\<bar>r\<bar> \<le> 2 ^ 53"
  proof (cases "0 \<le> x / u")
    case True
    with sb have "x / u \<le> of_int (2 ^ 53)" and "of_int 0 \<le> x / u" by simp_all
    then have "r \<le> 2 ^ 53" and "0 \<le> r"
      unfolding r_def by (simp_all only: rne_le rne_ge)
    then show ?thesis by simp
  next
    case False
    with sb have "of_int (- (2 ^ 53)) \<le> x / u" and "x / u \<le> of_int 0" by simp_all
    then have "- (2 ^ 53) \<le> r" and "r \<le> 0"
      unfolding r_def by (simp_all only: rne_le rne_ge)
    then show ?thesis by simp
  qed
  then consider "\<bar>r\<bar> < 2 ^ 53" | "r = 2 ^ 53" | "r = - (2 ^ 53)" by linarith
  then show ?thesis
  proof cases
    case 1
    then show ?thesis unfolding e u_def by (rule fl_repr)
  next
    case 2
    have "of_int r * u = of_int 1 * 2 powi ((k - 52) + 53)"
      unfolding u_def 2 by (subst power_int_add) simp_all
    moreover have "fl (of_int 1 * 2 powi ((k - 52) + 53)) = of_int 1 * 2 powi ((k - 52) + 53)"
      by (rule fl_repr) simp
    ultimately show ?thesis by (simp only: e)
  next
    case 3
    have "of_int r * u = of_int (- 1) * 2 powi ((k - 52) + 53)"
      unfolding u_def 3 by (subst power_int_add) simp_all
    moreover have "fl (of_int (- 1) * 2 powi ((k - 52) + 53)) = of_int (- 1) * 2 powi ((k - 52) + 53)"
      by (rule fl_repr) simp
    ultimately show ?thesis by (simp only: e)
  qed
qed

text \<open>Numbers that are their own rounding, for the evaluation of concrete runs.\<close>

lemma fl_numeral_eighth: "(numeral n :: int) < 2 ^ 53 \<Longrightarrow> fl (numeral n / 8) = numeral n / 8"
  using fl_repr [of "numeral n" "- 3"] by simp

lemma fl_half: "fl (1 / 2) = 1 / 2"
  using fl_repr [of 1 "- 1"] by simp

lemma fl_quarter: "fl (1 / 4) = 1 / 4"
  using fl_repr [of 1 "- 2"] by simp

lemma fl_eighth: "fl (1 / 8) = 1 / 8"
  using fl_repr [of 1 "- 3"] by simp

text \<open>The double nearest to 0.2.\<close>

lemma fl_fifth: "fl (1 / 5) = 3602879701896397 / 18014398509481984"
proof -
  have "fl (1 / 5) = of_int (rne (1 / 5 / 2 powi (- 3 - 52))) * 2 powi (- 3 - 52)"
    by (rule fl_eval) (simp_all add: power_int_minus)
  also have "rne (1 / 5 / 2 powi (- 3 - 52)) = 7205759403792794"
    by (simp add: rne_def power_int_minus)
  finally show ?thesis by (simp add: power_int_minus)
qed

text \<open>
  The largest double below 1, and the base time of the simulated page for that
  draw: the product rounds down to \<open>100 - 2 ^ - 46\<close>, the sum lies half way
  between two doubles and rounds to the even one, 150.
\<close>

lemma fl_largest_draw: "fl (1 - 1 / 2 ^ 53) = 1 - 1 / 2 ^ 53"
  using fl_repr [of "2 ^ 53 - 1" "- 53"] by (simp add: power_int_minus field_simps)

lemma fl_largest_draw_times_100: "fl ((1 - 1 / 2 ^ 53) * 100) = 100 - 1 / 2 ^ 46"
proof -
  have "fl ((1 - 1 / 2 ^ 53) * 100) =
      of_int (rne ((1 - 1 / 2 ^ 53) * 100 / 2 powi (6 - 52))) * 2 powi (6 - 52)"
    by (rule fl_eval) simp_all
  also have "rne ((1 - 1 / 2 ^ 53) * 100 / 2 powi (6 - 52)) = 100 * 2 ^ 46 - 1"
    by (simp add: rne_def power_int_minus)
  finally show ?thesis by (simp add: power_int_minus)
qed

lemma fl_largest_draw_plus_50: "fl (100 - 1 / 2 ^ 46 + 50) = 150"
proof -
  have "fl (100 - 1 / 2 ^ 46 + 50) =
      of_int (rne ((100 - 1 / 2 ^ 46 + 50) / 2 powi (7 - 52))) * 2 powi (7 - 52)"
    by (rule fl_eval) simp_all
  also have "rne ((100 - 1 / 2 ^ 46 + 50) / 2 powi (7 - 52)) = 150 * 2 ^ 45"
    by (simp add: rne_def power_int_minus)
  finally show ?thesis by (simp add: power_int_minus)
qed

lemma fl_fifth_fixed:
  "fl (3602879701896397 / 18014398509481984) = 3602879701896397 / 18014398509481984"
  using fl_idem [of "1 / 5"] by (simp only: fl_fifth)

lemmas fl_simps = fl_0 fl_1 fl_numeral fl_numeral_half fl_numeral_quarter fl_numeral_eighth
  fl_half fl_quarter fl_eighth fl_idem fl_fifth fl_fifth_fixed

subsection \<open>One sample and a run of samples on the measured page\<close>

lemma length_slice_last: "length (slice_last n xs) = min n (length xs)"
  by (simp add: slice_last_def)

lemma slice_last_append:
  "slice_last n (slice_last (Suc n) xs) @ [x] = slice_last (Suc n) (xs @ [x])"
proof -
  have "length xs - (length xs - Suc n + n) + (length xs - Suc n) = length xs - n"
    by arith
  then show ?thesis
    by (simp add: slice_last_def)
qed

lemma executeFunction_Some:
  "i < length fs \<Longrightarrow>
   executeFunction i t fs =
     Some (fs[i := (fs ! i)\<lparr>stats := sampleStats (name (fs ! i)) t (stats (fs ! i)),
                          history := slice_last 30 (history (fs ! i)) @ [t]\<rparr>],
           snd (trackFirst (name (fs ! i)) t (stats (fs ! i)))
           @ snd (trackBest (name (fs ! i)) t (fst (trackFirst (name (fs ! i)) t (stats (fs ! i)))))
           @ snd (updateStatus (name (fs ! i)) (updateLevel (accumulate t
                (fst (trackBest (name (fs ! i)) t (fst (trackFirst (name (fs ! i)) t (stats (fs ! i))))))))))"
  by (simp add: executeFunction_def sampleStats_def Let_def split_beta)

lemma executeFunction_None: "\<not> i < length fs \<Longrightarrow> executeFunction i t fs = None"
  by (simp add: executeFunction_def)

lemma callCount_trackFirst: "callCount (fst (trackFirst n t s)) = callCount s"
  and status_trackFirst: "status (fst (trackFirst n t s)) = status s"
  and level_trackFirst: "optimizationLevel (fst (trackFirst n t s)) = optimizationLevel s"
  by (simp_all add: trackFirst_def)

lemma callCount_trackBest: "callCount (fst (trackBest n t s)) = callCount s"
  and status_trackBest: "status (fst (trackBest n t s)) = status s"
  and level_trackBest: "optimizationLevel (fst (trackBest n t s)) = optimizationLevel s"
  and firstTime_trackBest: "firstTime (fst (trackBest n t s)) = firstTime s"
  by (simp_all add: trackBest_def split: option.splits)

lemma accumulate_fields:
  "callCount (accumulate t s) = Suc (callCount s)"
  "status (accumulate t s) = status s"
  "optimizationLevel (accumulate t s) = optimizationLevel s"
  "firstTime (accumulate t s) = firstTime s"
  "bestTime (accumulate t s) = bestTime s"
  by (simp_all add: accumulate_def Let_def)

lemma updateLevel_fields:
  "callCount (updateLevel s) = callCount s"
  "status (updateLevel s) = status s"
  "firstTime (updateLevel s) = firstTime s"
  "bestTime (updateLevel s) = bestTime s"
  by (simp_all add: updateLevel_def split: option.splits)

lemma updateStatus_fields:
  "callCount (fst (updateStatus n s)) = callCount s"
  "optimizationLevel (fst (updateStatus n s)) = optimizationLevel s"
  "firstTime (fst (updateStatus n s)) = firstTime s"
  "bestTime (fst (updateStatus n s)) = bestTime s"
  by (simp_all add: updateStatus_def)

lemma status_updateStatus:
  "status s = classify (callCount s - 1) \<Longrightarrow> status (fst (updateStatus n s)) = classify (callCount s)"
  unfolding updateStatus_def classify_def OPTIMIZED_THRESHOLD_def HOT_THRESHOLD_def OPTIMIZATION_THRESHOLD_def
  by (auto split: if_splits)

lemma callCount_sampleStats: "callCount (sampleStats n t s) = Suc (callCount s)"
  by (simp add: sampleStats_def updateStatus_fields updateLevel_fields accumulate_fields
      callCount_trackBest callCount_trackFirst)

lemma status_sampleStats:
  "status s = classify (callCount s) \<Longrightarrow>
   status (sampleStats n t s) = classify (callCount (sampleStats n t s))"
  unfolding callCount_sampleStats
  unfolding sampleStats_def
  by (subst status_updateStatus)
     (simp_all add: updateStatus_fields updateLevel_fields accumulate_fields
      callCount_trackBest callCount_trackFirst status_trackBest status_trackFirst)

lemma rank_classify_mono: "m \<le> n \<Longrightarrow> rank (classify m) \<le> rank (classify n)"
  by (simp add: classify_def)

lemma executeFunction_eq:
  "executeFunction i t fs = Some (fs', m) \<longleftrightarrow>
     i < length fs \<and>
     fs' = fs[i := (fs ! i)\<lparr>stats := sampleStats (name (fs ! i)) t (stats (fs ! i)),
                          history := slice_last 30 (history (fs ! i)) @ [t]\<rparr>] \<and>
     m = sampleMessages (name (fs ! i)) t (stats (fs ! i))"
  by (cases "i < length fs")
     (auto simp add: executeFunction_Some executeFunction_None sampleMessages_def)

lemma executeSamples_length:
  "executeSamples xs fs = Some (fs', m) \<Longrightarrow> length fs' = length fs"
proof (induction xs arbitrary: fs m)
  case Nil
  then show ?case by simp
next
  case (Cons x xs)
  obtain i t where x: "x = (i, t)" by (cases x)
  from Cons.prems obtain fs1 m1 m2 where
    a: "executeFunction i t fs = Some (fs1, m1)" and b: "executeSamples xs fs1 = Some (fs', m2)"
    by (auto simp add: x split: option.splits)
  from a have "length fs1 = length fs" by (simp add: executeFunction_eq)
  with Cons.IH [OF b] show ?case by simp
qed

lemma executeSamples_inv:
  assumes step: "\<And>n t s. P s \<Longrightarrow> P (sampleStats n t s)"
  shows "executeSamples xs fs = Some (fs', m) \<Longrightarrow> j < length fs \<Longrightarrow>
         P (stats (fs ! j)) \<Longrightarrow> P (stats (fs' ! j))"
proof (induction xs arbitrary: fs m)
  case Nil
  then show ?case by simp
next
  case (Cons x xs)
  obtain i t where x: "x = (i, t)" by (cases x)
  from Cons.prems(1) obtain fs1 m1 m2 where
    a: "executeFunction i t fs = Some (fs1, m1)" and b: "executeSamples xs fs1 = Some (fs', m2)"
    by (auto simp add: x split: option.splits)
  from a have len: "length fs1 = length fs" by (simp add: executeFunction_eq)
  have "P (stats (fs1 ! j))"
  proof (cases "j = i")
    case True
    with a Cons.prems(2,3) show ?thesis by (simp add: executeFunction_eq step)
  next
    case False
    with a Cons.prems(2,3) show ?thesis by (simp add: executeFunction_eq)
  qed
  with Cons.IH [OF b] len Cons.prems(2) show ?case by simp
qed

lemma executeSamples_callCount:
  "executeSamples xs fs = Some (fs', m) \<Longrightarrow> j < length fs \<Longrightarrow>
   callCount (stats (fs' ! j)) = callCount (stats (fs ! j)) + length (filter (\<lambda>x. fst x = j) xs)"
proof (induction xs arbitrary: fs m)
  case Nil
  then show ?case by simp
next
  case (Cons x xs)
  obtain i t where x: "x = (i, t)" by (cases x)
  from Cons.prems(1) obtain fs1 m1 m2 where
    a: "executeFunction i t fs = Some (fs1, m1)" and b: "executeSamples xs fs1 = Some (fs', m2)"
    by (auto simp add: x split: option.splits)
  from a have len: "length fs1 = length fs" by (simp add: executeFunction_eq)
  have "callCount (stats (fs1 ! j)) = callCount (stats (fs ! j)) + (if i = j then 1 else 0)"
    using a Cons.prems(2) by (auto simp add: executeFunction_eq callCount_sampleStats)
  with Cons.IH [OF b] len Cons.prems(2) show ?case by (simp add: x)
qed

lemma executeSamples_history:
  "executeSamples xs fs = Some (fs', m) \<Longrightarrow> j < length fs \<Longrightarrow>
   history (fs ! j) = slice_last 31 h \<Longrightarrow>
   history (fs' ! j) = slice_last 31 (h @ map snd (filter (\<lambda>x. fst x = j) xs))"
proof (induction xs arbitrary: fs m h)
  case Nil
  then show ?case by simp
next
  case (Cons x xs)
  obtain i t where x: "x = (i, t)" by (cases x)
  from Cons.prems(1) obtain fs1 m1 m2 where
    a: "executeFunction i t fs = Some (fs1, m1)" and b: "executeSamples xs fs1 = Some (fs', m2)"
    by (auto simp add: x split: option.splits)
  from a have len: "length fs1 = length fs" by (simp add: executeFunction_eq)
  show ?case
  proof (cases "i = j")
    case True
    have "history (fs1 ! j) = slice_last 30 (slice_last (Suc 30) h) @ [t]"
      using a Cons.prems(2,3) True by (simp add: executeFunction_eq)
    then have "history (fs1 ! j) = slice_last 31 (h @ [t])"
      by (simp only: slice_last_append) simp
    from Cons.IH [OF b _ this] len Cons.prems(2) True show ?thesis by (simp add: x)
  next
    case False
    have "history (fs1 ! j) = slice_last 31 h"
      using a Cons.prems(2,3) False by (simp add: executeFunction_eq)
    from Cons.IH [OF b _ this] len Cons.prems(2) False show ?thesis by (simp add: x)
  qed
qed

lemma executeSamples_total:
  "\<forall>x \<in> set xs. fst x < length fs \<Longrightarrow> \<exists>fs' m. executeSamples xs fs = Some (fs', m)"
proof (induction xs arbitrary: fs)
  case Nil
  then show ?case by simp
next
  case (Cons x xs)
  obtain i t where x: "x = (i, t)" by (cases x)
  from Cons.prems have i: "i < length fs" by (simp add: x)
  then obtain fs1 m1 where a: "executeFunction i t fs = Some (fs1, m1)"
    by (simp add: executeFunction_Some)
  then have "length fs1 = length fs" by (simp add: executeFunction_eq)
  with Cons.prems have "\<forall>x \<in> set xs. fst x < length fs1" by simp
  from Cons.IH [OF this] a show ?case by (auto simp add: x)
qed

subsection \<open>One sample and a run of samples on the simulated page\<close>

lemma simulateExecution_eq:
  "simulateExecution i r gs = Some (gs', m) \<longleftrightarrow>
     i < length gs \<and>
     gs' = gs[i := (gs ! i)\<lparr>stats := sampleStatsSim (name (gs ! i)) r (stats (gs ! i)),
                history := slice_last 20 (history (gs ! i))
                           @ [simulatedTime r (optimizationLevel (stats (gs ! i)))]\<rparr>] \<and>
     m = sampleMessagesSim (name (gs ! i)) r (stats (gs ! i))"
  by (cases "i < length gs")
     (auto simp add: simulateExecution_def sampleStatsSim_def sampleMessagesSim_def
        Let_def split_beta)

lemma accumulateSim_fields:
  "callCount (accumulateSim t s) = Suc (callCount s)"
  "status (accumulateSim t s) = status s"
  "optimizationLevel (accumulateSim t s) = optimizationLevel s"
  by (simp_all add: accumulateSim_def Let_def)

lemma callCount_updateStatusSim: "callCount (fst (updateStatusSim n s)) = callCount s"
  by (simp add: updateStatusSim_def)

lemma status_updateStatusSim:
  "status s = classify (callCount s - 1) \<Longrightarrow>
   status (fst (updateStatusSim n s)) = classify (callCount s)"
  unfolding updateStatusSim_def classify_def OPTIMIZED_THRESHOLD_def HOT_THRESHOLD_def
    OPTIMIZATION_THRESHOLD_def
  by (auto split: if_splits)

lemma callCount_sampleStatsSim: "callCount (sampleStatsSim n r s) = Suc (callCount s)"
  by (simp add: sampleStatsSim_def callCount_updateStatusSim accumulateSim_fields)

lemma status_sampleStatsSim:
  "status s = classify (callCount s) \<Longrightarrow>
   status (sampleStatsSim n r s) = classify (callCount (sampleStatsSim n r s))"
  unfolding callCount_sampleStatsSim
  unfolding sampleStatsSim_def
  by (subst status_updateStatusSim) (simp_all add: accumulateSim_fields)

lemma simulateSamples_length:
  "simulateSamples xs gs = Some (gs', m) \<Longrightarrow> length gs' = length gs"
proof (induction xs arbitrary: gs m)
  case Nil
  then show ?case by simp
next
  case (Cons x xs)
  obtain i r where x: "x = (i, r)" by (cases x)
  from Cons.prems obtain gs1 m1 m2 where
    a: "simulateExecution i r gs = Some (gs1, m1)" and b: "simulateSamples xs gs1 = Some (gs', m2)"
    by (auto simp add: x split: option.splits)
  from a have "length gs1 = length gs" by (simp add: simulateExecution_eq)
  with Cons.IH [OF b] show ?case by simp
qed

lemma simulateSamples_inv:
  assumes step: "\<And>n r s. P s \<Longrightarrow> P (sampleStatsSim n r s)"
  shows "simulateSamples xs gs = Some (gs', m) \<Longrightarrow> j < length gs \<Longrightarrow>
         P (stats (gs ! j)) \<Longrightarrow> P (stats (gs' ! j))"
proof (induction xs arbitrary: gs m)
  case Nil
  then show ?case by simp
next
  case (Cons x xs)
  obtain i r where x: "x = (i, r)" by (cases x)
  from Cons.prems(1) obtain gs1 m1 m2 where
    a: "simulateExecution i r gs = Some (gs1, m1)" and b: "simulateSamples xs gs1 = Some (gs', m2)"
    by (auto simp add: x split: option.splits)
  from a have len: "length gs1 = length gs" by (simp add: simulateExecution_eq)
  have "P (stats (gs1 ! j))"
  proof (cases "j = i")
    case True
    with a Cons.prems(2,3) show ?thesis by (simp add: simulateExecution_eq step)
  next
    case False
    with a Cons.prems(2,3) show ?thesis by (simp add: simulateExecution_eq)
  qed
  with Cons.IH [OF b] len Cons.prems(2) show ?case by simp
qed

lemma simulateSamples_callCount:
  "simulateSamples xs gs = Some (gs', m) \<Longrightarrow> j < length gs \<Longrightarrow>
   callCount (stats (gs' ! j)) = callCount (stats (gs ! j)) + length (filter (\<lambda>x. fst x = j) xs)"
proof (induction xs arbitrary: gs m)
  case Nil
  then show ?case by simp
next
  case (Cons x xs)
  obtain i r where x: "x = (i, r)" by (cases x)
  from Cons.prems(1) obtain gs1 m1 m2 where
    a: "simulateExecution i r gs = Some (gs1, m1)" and b: "simulateSamples xs gs1 = Some (gs', m2)"
    by (auto simp add: x split: option.splits)
  from a have len: "length gs1 = length gs" by (simp add: simulateExecution_eq)
  have "callCount (stats (gs1 ! j)) = callCount (stats (gs ! j)) + (if i = j then 1 else 0)"
    using a Cons.prems(2) by (auto simp add: simulateExecution_eq callCount_sampleStatsSim)
  with Cons.IH [OF b] len Cons.prems(2) show ?case by (simp add: x)
qed

lemma simulateSamples_total:
  "\<forall>x \<in> set xs. fst x < length gs \<Longrightarrow> \<exists>gs' m. simulateSamples xs gs = Some (gs', m)"
proof (induction xs arbitrary: gs)
  case Nil
  then show ?case by simp
next
  case (Cons x xs)
  obtain i r where x: "x = (i, r)" by (cases x)
  from Cons.prems have i: "i < length gs" by (simp add: x)
  then obtain gs1 m1 where a: "simulateExecution i r gs = Some (gs1, m1)"
    by (simp add: simulateExecution_eq)
  then have "length gs1 = length gs" by (simp add: simulateExecution_eq)
  with Cons.prems have "\<forall>x \<in> set xs. fst x < length gs1" by simp
  from Cons.IH [OF this] a show ?case by (auto simp add: x)
qed

subsection \<open>Call count and status from the reset state\<close>

lemma reset_stats:
  "j < length fs \<Longrightarrow> stats (resetFunctions fs ! j) = resetStats"
  "j < length fs \<Longrightarrow> history (resetFunctions fs ! j) = []"
  "length (resetFunctions fs) = length fs"
  by (simp_all add: resetFunctions_def)

lemma resetSim_stats:
  "j < length gs \<Longrightarrow> stats (resetFunctionsSim gs ! j) = resetStatsSim"
  "j < length gs \<Longrightarrow> history (resetFunctionsSim gs ! j) = []"
  "length (resetFunctionsSim gs) = length gs"
  by (simp_all add: resetFunctionsSim_def)

lemma measured_status_run:
  assumes run: "executeSamples xs (resetFunctions fs) = Some (fs1, m1)" and j: "j < length fs"
  shows "callCount (stats (fs1 ! j)) = length (filter (\<lambda>x. fst x = j) xs)"
    and "status (stats (fs1 ! j)) = classify (callCount (stats (fs1 ! j)))"
proof -
  from j have j': "j < length (resetFunctions fs)" by (simp add: reset_stats)
  from executeSamples_callCount [OF run j'] j
  show "callCount (stats (fs1 ! j)) = length (filter (\<lambda>x. fst x = j) xs)"
    by (simp add: reset_stats resetStats_def)
  have "status (stats (resetFunctions fs ! j)) = classify (callCount (stats (resetFunctions fs ! j)))"
    using j by (simp add: reset_stats resetStats_def classify_def)
  with executeSamples_inv [where P = "\<lambda>s. status s = classify (callCount s)", OF _ run j']
  show "status (stats (fs1 ! j)) = classify (callCount (stats (fs1 ! j)))"
    by (simp add: status_sampleStats)
qed

lemma simulated_status_run:
  assumes run: "simulateSamples xs (resetFunctionsSim gs) = Some (gs1, m1)" and j: "j < length gs"
  shows "callCount (stats (gs1 ! j)) = length (filter (\<lambda>x. fst x = j) xs)"
    and "status (stats (gs1 ! j)) = classify (callCount (stats (gs1 ! j)))"
proof -
  from j have j': "j < length (resetFunctionsSim gs)" by (simp add: resetSim_stats)
  from simulateSamples_callCount [OF run j'] j
  show "callCount (stats (gs1 ! j)) = length (filter (\<lambda>x. fst x = j) xs)"
    by (simp add: resetSim_stats resetStatsSim_def)
  have "status (stats (resetFunctionsSim gs ! j)) =
        classify (callCount (stats (resetFunctionsSim gs ! j)))"
    using j by (simp add: resetSim_stats resetStatsSim_def classify_def)
  with simulateSamples_inv [where P = "\<lambda>s. status s = classify (callCount s)", OF _ run j']
  show "status (stats (gs1 ! j)) = classify (callCount (stats (gs1 ! j)))"
    by (simp add: status_sampleStatsSim)
qed

lemma measured_status_mono:
  assumes run: "executeSamples xs (resetFunctions fs) = Some (fs1, m1)"
    and more: "executeSamples ys fs1 = Some (fs2, m2)" and j: "j < length fs"
  shows "callCount (stats (fs1 ! j)) \<le> callCount (stats (fs2 ! j))"
    and "rank (status (stats (fs1 ! j))) \<le> rank (status (stats (fs2 ! j)))"
    and "status (stats (fs2 ! j)) = classify (callCount (stats (fs2 ! j)))"
proof -
  from executeSamples_length [OF run] j have j1: "j < length fs1" by (simp add: reset_stats)
  from executeSamples_callCount [OF more j1]
  show le: "callCount (stats (fs1 ! j)) \<le> callCount (stats (fs2 ! j))" by simp
  have "status (stats (fs1 ! j)) = classify (callCount (stats (fs1 ! j)))"
    by (rule measured_status_run [OF run j])
  with executeSamples_inv [where P = "\<lambda>s. status s = classify (callCount s)", OF _ more j1]
  show s2: "status (stats (fs2 ! j)) = classify (callCount (stats (fs2 ! j)))"
    by (simp add: status_sampleStats)
  from measured_status_run(2) [OF run j] s2 rank_classify_mono [OF le]
  show "rank (status (stats (fs1 ! j))) \<le> rank (status (stats (fs2 ! j)))" by simp
qed

lemma simulated_status_mono:
  assumes run: "simulateSamples xs (resetFunctionsSim gs) = Some (gs1, m1)"
    and more: "simulateSamples ys gs1 = Some (gs2, m2)" and j: "j < length gs"
  shows "callCount (stats (gs1 ! j)) \<le> callCount (stats (gs2 ! j))"
    and "rank (status (stats (gs1 ! j))) \<le> rank (status (stats (gs2 ! j)))"
    and "status (stats (gs2 ! j)) = classify (callCount (stats (gs2 ! j)))"
proof -
  from simulateSamples_length [OF run] j have j1: "j < length gs1" by (simp add: resetSim_stats)
  from simulateSamples_callCount [OF more j1]
  show le: "callCount (stats (gs1 ! j)) \<le> callCount (stats (gs2 ! j))" by simp
  have "status (stats (gs1 ! j)) = classify (callCount (stats (gs1 ! j)))"
    by (rule simulated_status_run [OF run j])
  with simulateSamples_inv [where P = "\<lambda>s. status s = classify (callCount s)", OF _ more j1]
  show s2: "status (stats (gs2 ! j)) = classify (callCount (stats (gs2 ! j)))"
    by (simp add: status_sampleStatsSim)
  from simulated_status_run(2) [OF run j] s2 rank_classify_mono [OF le]
  show "rank (status (stats (gs1 ! j))) \<le> rank (status (stats (gs2 ! j)))" by simp
qed

subsection \<open>Evaluation of concrete runs\<close>

text \<open>The definitions a concrete run is evaluated with.\<close>

lemmas sampler_defs = resetFunctions_def resetStats_def executeFunction_def trackFirst_def
  trackBest_def accumulate_def updateLevel_def updateStatus_def improvementRatio_def
  improvement_def improvementOver5_def toFixed1_def slice_last_def Let_def
  OPTIMIZED_THRESHOLD_def HOT_THRESHOLD_def OPTIMIZATION_THRESHOLD_def speedup_def
  resetFunctionsSim_def resetStatsSim_def simulateExecution_def accumulateSim_def
  updateStatusSim_def simulatedTime_def baseTime_def optimizationFactor_def

subsection \<open>Status lines among the messages of a sample\<close>

lemma transitions_trackFirst: "List.map_filter transitionOf (snd (trackFirst n t s)) = []"
  by (simp add: trackFirst_def List.map_filter_def)

lemma transitions_trackBest: "List.map_filter transitionOf (snd (trackBest n t s)) = []"
  by (simp add: trackBest_def List.map_filter_def split: option.splits)

lemma transitions_updateStatus:
  "List.map_filter transitionOf (snd (updateStatus n s)) =
     (if status (fst (updateStatus n s)) \<noteq> status s
      then [(n, status (fst (updateStatus n s)))] else [])"
  by (simp add: updateStatus_def List.map_filter_def)

lemma transitions_updateStatusSim:
  "List.map_filter transitionOf (snd (updateStatusSim n s)) =
     (if status (fst (updateStatusSim n s)) \<noteq> status s
      then [(n, status (fst (updateStatusSim n s)))] else [])"
  by (simp add: updateStatusSim_def List.map_filter_def)

lemma map_filter_append:
  "List.map_filter f (xs @ ys) = List.map_filter f xs @ List.map_filter f ys"
  by (simp add: List.map_filter_def)

lemma transitions_sampleMessages:
  "List.map_filter transitionOf (sampleMessages n t s) =
     (if status (sampleStats n t s) \<noteq> status s then [(n, status (sampleStats n t s))] else [])"
proof -
  let ?s4 = "updateLevel (accumulate t (fst (trackBest n t (fst (trackFirst n t s)))))"
  have "status ?s4 = status s"
    by (simp add: updateLevel_fields accumulate_fields status_trackBest status_trackFirst)
  with transitions_updateStatus [of n ?s4] show ?thesis
    by (simp add: sampleMessages_def sampleStats_def map_filter_append
        transitions_trackFirst transitions_trackBest)
qed

lemma transitions_sampleMessagesSim:
  "List.map_filter transitionOf (sampleMessagesSim n r s) =
     (if status (sampleStatsSim n r s) \<noteq> status s
      then [(n, status (sampleStatsSim n r s))] else [])"
proof -
  let ?s1 = "accumulateSim (simulatedTime r (optimizationLevel s)) s"
  have "status ?s1 = status s"
    by (simp add: accumulateSim_fields)
  with transitions_updateStatusSim [of n ?s1] show ?thesis
    by (simp add: sampleMessagesSim_def sampleStatsSim_def)
qed

subsection \<open>The log and the histories\<close>

lemma length_addLog: "length (addLog now message prev) = min 50 (length prev) + 1"
  by (simp add: addLog_def length_slice_last)

lemma addLogs_slice_last: "addLogs ls (slice_last 51 h) = slice_last 51 (h @ ls)"
proof (induction ls arbitrary: h)
  case Nil
  then show ?case by simp
next
  case (Cons l ls)
  obtain now message where l: "l = (now, message)" by (cases l)
  have "addLog now message (slice_last (Suc 50) h) = slice_last (Suc 50) (h @ [l])"
    unfolding addLog_def l by (rule slice_last_append)
  then have "addLog now message (slice_last 51 h) = slice_last 51 (h @ [l])"
    by simp
  with Cons.IH [of "h @ [l]"] show ?case by (simp add: l)
qed

lemma addLogs_from_empty: "addLogs ls [] = slice_last 51 ls"
  using addLogs_slice_last [of ls "[]"] by (simp add: slice_last_def)

lemma simulateSamples_history_length:
  "simulateSamples xs gs = Some (gs', m) \<Longrightarrow> j < length gs \<Longrightarrow>
   length (history (gs ! j)) \<le> 21 \<Longrightarrow>
   length (history (gs' ! j)) =
     min 21 (length (history (gs ! j)) + length (filter (\<lambda>x. fst x = j) xs))"
proof (induction xs arbitrary: gs m)
  case Nil
  then show ?case by simp
next
  case (Cons x xs)
  obtain i r where x: "x = (i, r)" by (cases x)
  from Cons.prems(1) obtain gs1 m1 m2 where
    a: "simulateExecution i r gs = Some (gs1, m1)" and b: "simulateSamples xs gs1 = Some (gs', m2)"
    by (auto simp add: x split: option.splits)
  from a have len: "length gs1 = length gs" by (simp add: simulateExecution_eq)
  have h1: "length (history (gs1 ! j)) =
      (if i = j then min 21 (length (history (gs ! j)) + 1) else length (history (gs ! j)))"
    using a Cons.prems(2) by (auto simp add: simulateExecution_eq length_slice_last)
  with Cons.prems(3) have "length (history (gs1 ! j)) \<le> 21" by simp
  from Cons.IH [OF b _ this] len Cons.prems(2,3) h1 show ?case
    by (cases "i = j") (simp_all add: x)
qed

lemma measured_history_run:
  assumes run: "executeSamples xs (resetFunctions fs) = Some (fs', m)" and j: "j < length fs"
  shows "history (fs' ! j) = slice_last 31 (map snd (filter (\<lambda>x. fst x = j) xs))"
proof -
  from j have j': "j < length (resetFunctions fs)" by (simp add: reset_stats)
  have "history (resetFunctions fs ! j) = slice_last 31 []"
    using j by (simp add: reset_stats slice_last_def)
  from executeSamples_history [OF run j' this] show ?thesis by simp
qed

lemma simulated_history_run:
  assumes run: "simulateSamples xs (resetFunctionsSim gs) = Some (gs', m)" and j: "j < length gs"
  shows "length (history (gs' ! j)) = min 21 (length (filter (\<lambda>x. fst x = j) xs))"
proof -
  from j have j': "j < length (resetFunctionsSim gs)" by (simp add: resetSim_stats)
  have "length (history (resetFunctionsSim gs ! j)) \<le> 21"
    using j by (simp add: resetSim_stats)
  from simulateSamples_history_length [OF run j' this] j show ?thesis
    by (simp add: resetSim_stats)
qed

subsection \<open>First time, best time and level on the measured page\<close>

lemma firstTime_trackFirst:
  "firstTime (fst (trackFirst n t s)) = (case firstTime s of None \<Rightarrow> Some t | Some f \<Rightarrow> Some f)"
  and bestTime_trackFirst: "bestTime (fst (trackFirst n t s)) = bestTime s"
  by (simp_all add: trackFirst_def split: option.splits)

lemma bestTime_trackBest:
  "bestTime (fst (trackBest n t s)) =
     (case bestTime s of None \<Rightarrow> Some t | Some b \<Rightarrow> Some (if t < b then t else b))"
  by (simp add: trackBest_def split: option.splits)

lemma firstTime_sampleStats:
  "firstTime (sampleStats n t s) = (case firstTime s of None \<Rightarrow> Some t | Some f \<Rightarrow> Some f)"
  by (simp add: sampleStats_def updateStatus_fields updateLevel_fields accumulate_fields
      firstTime_trackBest firstTime_trackFirst)

lemma bestTime_sampleStats:
  "bestTime (sampleStats n t s) =
     (case bestTime s of None \<Rightarrow> Some t | Some b \<Rightarrow> Some (if t < b then t else b))"
  by (simp add: sampleStats_def updateStatus_fields updateLevel_fields accumulate_fields
      bestTime_trackBest bestTime_trackFirst)

lemma timesInv_reset: "timesInv resetStats"
  by (simp add: timesInv_def resetStats_def)

lemma timesInv_sampleStats: "timesInv s \<Longrightarrow> timesInv (sampleStats n t s)"
  by (auto simp add: timesInv_def firstTime_sampleStats bestTime_sampleStats split: option.splits)

lemma measured_times_run:
  assumes run: "executeSamples xs (resetFunctions fs) = Some (fs', m)" and j: "j < length fs"
  shows "timesInv (stats (fs' ! j))"
proof -
  from j have j': "j < length (resetFunctions fs)" by (simp add: reset_stats)
  have "timesInv (stats (resetFunctions fs ! j))"
    using j by (simp add: reset_stats timesInv_reset)
  with executeSamples_inv [where P = timesInv, OF _ run j'] show ?thesis
    by (simp add: timesInv_sampleStats)
qed

lemma clamp_min_max: "lo \<le> hi \<Longrightarrow> clamp lo hi x = min hi (max lo x)"
  by (simp add: clamp_def min_def max_def)

lemma quarter_off:
  assumes "q \<le> 3 / 4"
  shows "5 \<le> fl (fl (1 - fl q) * 20)"
proof -
  have q34: "fl (3 / 4) = 3 / 4"
    using fl_repr [of 3 "- 2"] by simp
  have q14: "fl (1 / 4) = 1 / 4"
    using fl_repr [of 1 "- 2"] by simp
  have f5: "fl 5 = 5"
    using fl_of_int [of 5] by simp
  have "fl q \<le> 3 / 4"
  proof (cases "0 \<le> q")
    case True
    from fl_mono_nonneg [OF True assms] show ?thesis by (simp only: q34)
  next
    case False
    then have "fl q \<le> 0" by (intro fl_nonpos) simp
    then show ?thesis by simp
  qed
  then have "1 / 4 \<le> 1 - fl q" by simp
  with fl_mono_nonneg [of "1 / 4" "1 - fl q"] have "1 / 4 \<le> fl (1 - fl q)"
    by (simp add: q14)
  then have "5 \<le> fl (1 - fl q) * 20" by simp
  with fl_mono_nonneg [of 5 "fl (1 - fl q) * 20"] show ?thesis
    by (simp add: f5)
qed

lemma level_sampleStats:
  "optimizationLevel (sampleStats n t s) =
     (let f = (case firstTime s of None \<Rightarrow> t | Some f \<Rightarrow> f);
          b = (case bestTime s of None \<Rightarrow> t | Some b \<Rightarrow> if t < b then t else b)
      in if 0 < f then min 5 (max 0 (fl (fl (1 - fl (b / f)) * 20))) else optimizationLevel s)"
  by (simp add: sampleStats_def updateStatus_fields updateLevel_def accumulate_fields
      firstTime_trackBest firstTime_trackFirst bestTime_trackBest bestTime_trackFirst
      level_trackBest level_trackFirst improvementRatio_def Let_def split: option.splits)

subsection \<open>Level and duration on the simulated page\<close>

lemma levelInv_reset: "levelInv resetStatsSim"
  by (simp add: levelInv_def resetStatsSim_def classify_def tierCeiling_def fl_0)

lemma level_updateStatusSim:
  "status s = classify (callCount s - 1) \<Longrightarrow>
   optimizationLevel (fst (updateStatusSim n s)) =
     (case classify (callCount s) of
        cold \<Rightarrow> optimizationLevel s
      | warming \<Rightarrow> min 2 (fl (optimizationLevel s + fl 0.2))
      | hot \<Rightarrow> min 4 (fl (optimizationLevel s + fl 0.3))
      | optimized \<Rightarrow> min 5 (fl (optimizationLevel s + fl 0.5)))"
  unfolding updateStatusSim_def classify_def OPTIMIZED_THRESHOLD_def HOT_THRESHOLD_def
    OPTIMIZATION_THRESHOLD_def
  by (simp split: if_splits)

lemma level_sampleStatsSim:
  assumes "status s = classify (callCount s)"
  shows "optimizationLevel (sampleStatsSim n r s) =
     (case status (sampleStatsSim n r s) of
        cold \<Rightarrow> optimizationLevel s
      | warming \<Rightarrow> min 2 (fl (optimizationLevel s + fl 0.2))
      | hot \<Rightarrow> min 4 (fl (optimizationLevel s + fl 0.3))
      | optimized \<Rightarrow> min 5 (fl (optimizationLevel s + fl 0.5)))"
proof -
  let ?s1 = "accumulateSim (simulatedTime r (optimizationLevel s)) s"
  from assms have a: "status ?s1 = classify (callCount ?s1 - 1)"
    by (simp add: accumulateSim_fields)
  have "status (sampleStatsSim n r s) = classify (callCount ?s1)"
    using status_sampleStatsSim [OF assms, of n r]
    by (simp add: callCount_sampleStatsSim accumulateSim_fields)
  with level_updateStatusSim [OF a, of n] show ?thesis
    by (simp add: sampleStatsSim_def accumulateSim_fields split: Status.splits)
qed

lemma level_step:
  assumes "0 \<le> L" and "fl L = L" and "0 \<le> c" and "fl cap = cap" and "0 \<le> cap"
  shows "0 \<le> min cap (fl (L + fl c))"
    and "fl (min cap (fl (L + fl c))) = min cap (fl (L + fl c))"
    and "L \<le> cap \<Longrightarrow> L \<le> min cap (fl (L + fl c))"
proof -
  from assms(3) have "0 \<le> fl c" by (rule fl_nonneg)
  then have "L \<le> L + fl c" by simp
  with fl_mono_nonneg [OF assms(1)] have "fl L \<le> fl (L + fl c)" by simp
  with assms(2) have le: "L \<le> fl (L + fl c)" by simp
  with assms(1,5) show "0 \<le> min cap (fl (L + fl c))" by simp
  show "fl (min cap (fl (L + fl c))) = min cap (fl (L + fl c))"
    by (cases "cap \<le> fl (L + fl c)") (simp_all add: min_def assms(4) fl_idem)
  from le show "L \<le> cap \<Longrightarrow> L \<le> min cap (fl (L + fl c))" by simp
qed

lemma levelInv_sampleStatsSim:
  assumes "levelInv s"
  shows "levelInv (sampleStatsSim n r s)"
    and "optimizationLevel s \<le> optimizationLevel (sampleStatsSim n r s)"
proof -
  let ?L = "optimizationLevel s"
  from assms have st: "status s = classify (callCount s)"
    and lo: "0 \<le> ?L"
    and hi: "?L \<le> tierCeiling (classify (callCount s))"
    and rp: "fl ?L = ?L"
    by (auto simp add: levelInv_def)
  have st': "status (sampleStatsSim n r s) = classify (Suc (callCount s))"
    using status_sampleStatsSim [OF st, of n r] by (simp add: callCount_sampleStatsSim)
  have lv: "optimizationLevel (sampleStatsSim n r s) =
     (case classify (Suc (callCount s)) of
        cold \<Rightarrow> ?L
      | warming \<Rightarrow> min 2 (fl (?L + fl 0.2))
      | hot \<Rightarrow> min 4 (fl (?L + fl 0.3))
      | optimized \<Rightarrow> min 5 (fl (?L + fl 0.5)))"
    using level_sampleStatsSim [OF st, of n r] by (simp add: st')
  have mono: "tierCeiling (classify (callCount s)) \<le> tierCeiling (classify (Suc (callCount s)))"
    by (simp add: classify_def tierCeiling_def)
  have cold0: "classify (Suc (callCount s)) = cold \<Longrightarrow> classify (callCount s) = cold"
    by (simp add: classify_def split: if_splits)
  have f2: "fl 2 = 2" and f4: "fl 4 = 4" and f5: "fl 5 = 5"
    using fl_of_int [of 2] fl_of_int [of 4] fl_of_int [of 5] by simp_all
  have both: "levelInv (sampleStatsSim n r s) \<and> ?L \<le> optimizationLevel (sampleStatsSim n r s)"
  proof (cases "classify (Suc (callCount s))")
    case cold
    with cold0 hi lo rp lv st' show ?thesis
      by (simp add: levelInv_def callCount_sampleStatsSim tierCeiling_def)
  next
    case warming
    from hi mono warming have "?L \<le> 2" by (simp add: tierCeiling_def)
    with level_step [OF lo rp _ f2, of "0.2"] lv st' warming show ?thesis
      by (simp add: levelInv_def callCount_sampleStatsSim tierCeiling_def)
  next
    case hot
    from hi mono hot have "?L \<le> 4" by (simp add: tierCeiling_def)
    with level_step [OF lo rp _ f4, of "0.3"] lv st' hot show ?thesis
      by (simp add: levelInv_def callCount_sampleStatsSim tierCeiling_def)
  next
    case optimized
    from hi mono optimized have "?L \<le> 5" by (simp add: tierCeiling_def)
    with level_step [OF lo rp _ f5, of "0.5"] lv st' optimized show ?thesis
      by (simp add: levelInv_def callCount_sampleStatsSim tierCeiling_def)
  qed
  then show "levelInv (sampleStatsSim n r s)"
    and "optimizationLevel s \<le> optimizationLevel (sampleStatsSim n r s)"
    by simp_all
qed

lemma simulated_level_run:
  assumes run: "simulateSamples xs (resetFunctionsSim gs) = Some (gs', m)" and j: "j < length gs"
  shows "levelInv (stats (gs' ! j))"
proof -
  from j have j': "j < length (resetFunctionsSim gs)" by (simp add: resetSim_stats)
  have "levelInv (stats (resetFunctionsSim gs ! j))"
    using j by (simp add: resetSim_stats levelInv_reset)
  with simulateSamples_inv [where P = levelInv, OF _ run j'] show ?thesis
    by (simp add: levelInv_sampleStatsSim)
qed

lemma tierCeiling_le_5: "tierCeiling st \<le> 5"
  by (cases st) (simp_all add: tierCeiling_def)

lemma levelInv_bounds:
  assumes "levelInv s"
  shows "0 \<le> optimizationLevel s \<and> optimizationLevel s \<le> 5"
proof -
  from assms have "0 \<le> optimizationLevel s"
    and "optimizationLevel s \<le> tierCeiling (status s)"
    by (auto simp add: levelInv_def)
  with tierCeiling_le_5 [of "status s"] show ?thesis by linarith
qed

lemma simulatedTime_ge_5: "5 \<le> simulatedTime r L"
  by (simp add: simulatedTime_def)

lemma totalTime_sampleStatsSim:
  "totalTime (sampleStatsSim n r s) = fl (totalTime s + simulatedTime r (optimizationLevel s))"
  by (simp add: sampleStatsSim_def updateStatusSim_def accumulateSim_def Let_def)

text \<open>
  The doubles nearest to 0.15 and 0.3, and the roundings met by one sample of a
  warming record at level 15/8 and of a hot record at level 31/8, where the caps
  2 and 4 act.
\<close>

lemma fl_three_twentieths: "fl (3 / 20) = 5404319552844595 / 36028797018963968"
proof -
  have "fl (3 / 20) = of_int (rne (3 / 20 / 2 powi (- 3 - 52))) * 2 powi (- 3 - 52)"
    by (rule fl_eval) (simp_all add: power_int_minus)
  also have "rne (3 / 20 / 2 powi (- 3 - 52)) = 5404319552844595"
    by (simp add: rne_def power_int_minus)
  finally show ?thesis by (simp add: power_int_minus)
qed

lemma fl_three_tenths: "fl (3 / 10) = 5404319552844595 / 18014398509481984"
proof -
  have "fl (3 / 10) = of_int (rne (3 / 10 / 2 powi (- 2 - 52))) * 2 powi (- 2 - 52)"
    by (rule fl_eval) (simp_all add: power_int_minus)
  also have "rne (3 / 10 / 2 powi (- 2 - 52)) = 5404319552844595"
    by (simp add: rne_def power_int_minus)
  finally show ?thesis by (simp add: power_int_minus)
qed

lemma fl_cap2_product: "fl (81064793292668925 / 288230376151711744) = 9 / 32"
proof -
  have "fl (81064793292668925 / 288230376151711744) = of_int (rne (81064793292668925 / 288230376151711744 / 2 powi (- 2 - 52))) * 2 powi (- 2 - 52)"
    by (rule fl_eval) (simp_all add: power_int_minus)
  also have "rne (81064793292668925 / 288230376151711744 / 2 powi (- 2 - 52)) = 5066549580791808"
    by (simp add: rne_def power_int_minus)
  finally show ?thesis by (simp add: power_int_minus)
qed

lemma fl_cap2_factor: "fl (23 / 32) = 23 / 32"
proof -
  have "fl (23 / 32) = of_int (rne (23 / 32 / 2 powi (- 1 - 52))) * 2 powi (- 1 - 52)"
    by (rule fl_eval) (simp_all add: power_int_minus)
  also have "rne (23 / 32 / 2 powi (- 1 - 52)) = 6473924464345088"
    by (simp add: rne_def power_int_minus)
  finally show ?thesis by (simp add: power_int_minus)
qed

lemma fl_cap2_time: "fl (575 / 8) = 575 / 8"
proof -
  have "fl (575 / 8) = of_int (rne (575 / 8 / 2 powi (6 - 52))) * 2 powi (6 - 52)"
    by (rule fl_eval) (simp_all add: power_int_minus)
  also have "rne (575 / 8 / 2 powi (6 - 52)) = 5057753487769600"
    by (simp add: rne_def power_int_minus)
  finally show ?thesis by (simp add: power_int_minus)
qed

lemma fl_cap2_total: "fl (6175 / 8) = 6175 / 8"
proof -
  have "fl (6175 / 8) = of_int (rne (6175 / 8 / 2 powi (9 - 52))) * 2 powi (9 - 52)"
    by (rule fl_eval) (simp_all add: power_int_minus)
  also have "rne (6175 / 8 / 2 powi (9 - 52)) = 6789484301516800"
    by (simp add: rne_def power_int_minus)
  finally show ?thesis by (simp add: power_int_minus)
qed

lemma fl_cap2_average: "fl (6175 / 64) = 6175 / 64"
proof -
  have "fl (6175 / 64) = of_int (rne (6175 / 64 / 2 powi (6 - 52))) * 2 powi (6 - 52)"
    by (rule fl_eval) (simp_all add: power_int_minus)
  also have "rne (6175 / 64 / 2 powi (6 - 52)) = 6789484301516800"
    by (simp add: rne_def power_int_minus)
  finally show ?thesis by (simp add: power_int_minus)
qed

lemma fl_cap2_sum: "fl (37379876907175117 / 18014398509481984) = 2336242306698445 / 1125899906842624"
proof -
  have "fl (37379876907175117 / 18014398509481984) = of_int (rne (37379876907175117 / 18014398509481984 / 2 powi (1 - 52))) * 2 powi (1 - 52)"
    by (rule fl_eval) (simp_all add: power_int_minus)
  also have "rne (37379876907175117 / 18014398509481984 / 2 powi (1 - 52)) = 4672484613396890"
    by (simp add: rne_def power_int_minus)
  finally show ?thesis by (simp add: power_int_minus)
qed

lemma fl_cap4_product: "fl (167533906138182445 / 288230376151711744) = 5235434566818201 / 9007199254740992"
proof -
  have "fl (167533906138182445 / 288230376151711744) = of_int (rne (167533906138182445 / 288230376151711744 / 2 powi (- 1 - 52))) * 2 powi (- 1 - 52)"
    by (rule fl_eval) (simp_all add: power_int_minus)
  also have "rne (167533906138182445 / 288230376151711744 / 2 powi (- 1 - 52)) = 5235434566818201"
    by (simp add: rne_def power_int_minus)
  finally show ?thesis by (simp add: power_int_minus)
qed

lemma fl_cap4_factor: "fl (3771764687922791 / 9007199254740992) = 3771764687922791 / 9007199254740992"
proof -
  have "fl (3771764687922791 / 9007199254740992) = of_int (rne (3771764687922791 / 9007199254740992 / 2 powi (- 2 - 52))) * 2 powi (- 2 - 52)"
    by (rule fl_eval) (simp_all add: power_int_minus)
  also have "rne (3771764687922791 / 9007199254740992 / 2 powi (- 2 - 52)) = 7543529375845582"
    by (simp add: rne_def power_int_minus)
  finally show ?thesis by (simp add: power_int_minus)
qed

lemma fl_cap4_time: "fl (94294117198069775 / 2251799813685248) = 5893382324879361 / 140737488355328"
proof -
  have "fl (94294117198069775 / 2251799813685248) = of_int (rne (94294117198069775 / 2251799813685248 / 2 powi (5 - 52))) * 2 powi (5 - 52)"
    by (rule fl_eval) (simp_all add: power_int_minus)
  also have "rne (94294117198069775 / 2251799813685248 / 2 powi (5 - 52)) = 5893382324879361"
    by (simp add: rne_def power_int_minus)
  finally show ?thesis by (simp add: power_int_minus)
qed

lemma fl_cap4_total: "fl (216999614857871361 / 140737488355328) = 12335 / 8"
proof -
  have "fl (216999614857871361 / 140737488355328) = of_int (rne (216999614857871361 / 140737488355328 / 2 powi (10 - 52))) * 2 powi (10 - 52)"
    by (rule fl_eval) (simp_all add: power_int_minus)
  also have "rne (216999614857871361 / 140737488355328 / 2 powi (10 - 52)) = 6781237964308480"
    by (simp add: rne_def power_int_minus)
  finally show ?thesis by (simp add: power_int_minus)
qed

lemma fl_cap4_average: "fl (12335 / 128) = 12335 / 128"
proof -
  have "fl (12335 / 128) = of_int (rne (12335 / 128 / 2 powi (6 - 52))) * 2 powi (6 - 52)"
    by (rule fl_eval) (simp_all add: power_int_minus)
  also have "rne (12335 / 128 / 2 powi (6 - 52)) = 6781237964308480"
    by (simp add: rne_def power_int_minus)
  finally show ?thesis by (simp add: power_int_minus)
qed

lemma fl_cap4_sum: "fl (75210113777087283 / 18014398509481984) = 4700632111067955 / 1125899906842624"
proof -
  have "fl (75210113777087283 / 18014398509481984) = of_int (rne (75210113777087283 / 18014398509481984 / 2 powi (2 - 52))) * 2 powi (2 - 52)"
    by (rule fl_eval) (simp_all add: power_int_minus)
  also have "rne (75210113777087283 / 18014398509481984 / 2 powi (2 - 52)) = 4700632111067955"
    by (simp add: rne_def power_int_minus)
  finally show ?thesis by (simp add: power_int_minus)
qed

lemmas fl_cap_simps = fl_three_twentieths fl_three_tenths fl_cap2_product fl_cap2_factor fl_cap2_time fl_cap2_total fl_cap2_average fl_cap2_sum fl_cap4_product fl_cap4_factor fl_cap4_time fl_cap4_total fl_cap4_average fl_cap4_sum

text \<open>The level after a sample in any state, by the tier of the new call count.\<close>

lemma level_sampleStatsSim_any:
  "optimizationLevel (sampleStatsSim n r s) =
     (case classify (Suc (callCount s)) of
        cold \<Rightarrow> optimizationLevel s
      | warming \<Rightarrow> min 2 (fl (optimizationLevel s + fl 0.2))
      | hot \<Rightarrow> min 4 (fl (optimizationLevel s + fl 0.3))
      | optimized \<Rightarrow> min 5 (fl (optimizationLevel s + fl 0.5)))"
  unfolding sampleStatsSim_def updateStatusSim_def accumulateSim_def classify_def
    OPTIMIZED_THRESHOLD_def HOT_THRESHOLD_def OPTIMIZATION_THRESHOLD_def
  by (simp add: Let_def)

lemma level_sampleStatsSim_caps:
  "classify (Suc (callCount s)) = warming \<Longrightarrow> optimizationLevel (sampleStatsSim n r s) \<le> 2"
  "classify (Suc (callCount s)) = hot \<Longrightarrow> optimizationLevel (sampleStatsSim n r s) \<le> 4"
  "classify (Suc (callCount s)) = optimized \<Longrightarrow> optimizationLevel (sampleStatsSim n r s) \<le> 5"
  by (simp_all add: level_sampleStatsSim_any)

section \<open>The claims\<close>

subsection \<open>C1\<close>

text \<open>
  C1. From the reset state, after any sequence of samples, the call count of a
  record is the number of samples applied to it and its status is the one the
  thresholds give for that count (below 5 cold, from 5 warming, from 10 hot, from
  20 optimized); after any further samples the count has not decreased and the
  status has not gone down in the order cold, warming, hot, optimized. It holds
  for \<^verbatim>\<open>executeFunction\<close> and for \<^verbatim>\<open>simulateExecution\<close>.
\<close>

theorem C1_status_by_thresholds_monotonic:
  "(executeSamples xs (resetFunctions fs) = Some (fs', m) \<and>
    executeSamples ys fs' = Some (fs'', m') \<and> j < length fs \<longrightarrow>
      callCount (stats (fs' ! j)) = length (filter (\<lambda>x. fst x = j) xs) \<and>
      status (stats (fs' ! j)) = classify (callCount (stats (fs' ! j))) \<and>
      status (stats (fs'' ! j)) = classify (callCount (stats (fs'' ! j))) \<and>
      callCount (stats (fs' ! j)) \<le> callCount (stats (fs'' ! j)) \<and>
      rank (status (stats (fs' ! j))) \<le> rank (status (stats (fs'' ! j))))
   \<and>
   (simulateSamples us (resetFunctionsSim gs) = Some (gs', n) \<and>
    simulateSamples vs gs' = Some (gs'', n') \<and> k < length gs \<longrightarrow>
      callCount (stats (gs' ! k)) = length (filter (\<lambda>x. fst x = k) us) \<and>
      status (stats (gs' ! k)) = classify (callCount (stats (gs' ! k))) \<and>
      status (stats (gs'' ! k)) = classify (callCount (stats (gs'' ! k))) \<and>
      callCount (stats (gs' ! k)) \<le> callCount (stats (gs'' ! k)) \<and>
      rank (status (stats (gs' ! k))) \<le> rank (status (stats (gs'' ! k))))"
proof (rule conjI)
  show "executeSamples xs (resetFunctions fs) = Some (fs', m) \<and>
    executeSamples ys fs' = Some (fs'', m') \<and> j < length fs \<longrightarrow>
      callCount (stats (fs' ! j)) = length (filter (\<lambda>x. fst x = j) xs) \<and>
      status (stats (fs' ! j)) = classify (callCount (stats (fs' ! j))) \<and>
      status (stats (fs'' ! j)) = classify (callCount (stats (fs'' ! j))) \<and>
      callCount (stats (fs' ! j)) \<le> callCount (stats (fs'' ! j)) \<and>
      rank (status (stats (fs' ! j))) \<le> rank (status (stats (fs'' ! j)))"
  proof
    assume h: "executeSamples xs (resetFunctions fs) = Some (fs', m) \<and>
      executeSamples ys fs' = Some (fs'', m') \<and> j < length fs"
    then have r: "executeSamples xs (resetFunctions fs) = Some (fs', m)"
      and m: "executeSamples ys fs' = Some (fs'', m')" and j: "j < length fs"
      by simp_all
    from measured_status_run [OF r j] measured_status_mono [OF r m j]
    show "callCount (stats (fs' ! j)) = length (filter (\<lambda>x. fst x = j) xs) \<and>
      status (stats (fs' ! j)) = classify (callCount (stats (fs' ! j))) \<and>
      status (stats (fs'' ! j)) = classify (callCount (stats (fs'' ! j))) \<and>
      callCount (stats (fs' ! j)) \<le> callCount (stats (fs'' ! j)) \<and>
      rank (status (stats (fs' ! j))) \<le> rank (status (stats (fs'' ! j)))"
      by simp
  qed
next
  show "simulateSamples us (resetFunctionsSim gs) = Some (gs', n) \<and>
    simulateSamples vs gs' = Some (gs'', n') \<and> k < length gs \<longrightarrow>
      callCount (stats (gs' ! k)) = length (filter (\<lambda>x. fst x = k) us) \<and>
      status (stats (gs' ! k)) = classify (callCount (stats (gs' ! k))) \<and>
      status (stats (gs'' ! k)) = classify (callCount (stats (gs'' ! k))) \<and>
      callCount (stats (gs' ! k)) \<le> callCount (stats (gs'' ! k)) \<and>
      rank (status (stats (gs' ! k))) \<le> rank (status (stats (gs'' ! k)))"
  proof
    assume h: "simulateSamples us (resetFunctionsSim gs) = Some (gs', n) \<and>
      simulateSamples vs gs' = Some (gs'', n') \<and> k < length gs"
    then have r: "simulateSamples us (resetFunctionsSim gs) = Some (gs', n)"
      and m: "simulateSamples vs gs' = Some (gs'', n')" and k: "k < length gs"
      by simp_all
    from simulated_status_run [OF r k] simulated_status_mono [OF r m k]
    show "callCount (stats (gs' ! k)) = length (filter (\<lambda>x. fst x = k) us) \<and>
      status (stats (gs' ! k)) = classify (callCount (stats (gs' ! k))) \<and>
      status (stats (gs'' ! k)) = classify (callCount (stats (gs'' ! k))) \<and>
      callCount (stats (gs' ! k)) \<le> callCount (stats (gs'' ! k)) \<and>
      rank (status (stats (gs' ! k))) \<le> rank (status (stats (gs'' ! k)))"
      by simp
  qed
qed

theorem C1_witness:
  "executeSamples [(0, 4), (0, 4), (0, 4), (0, 4)]
       (resetFunctions [\<lparr>name = ''f'', code = ''c'', stats = resetStats, history = [],
        execute = (), iterations = 1\<rparr>]) =
     Some ([\<lparr>name = ''f'', code = ''c'',
        stats = \<lparr>callCount = 4, totalTime = 16, avgTime = 4, status = cold,
          optimizationLevel = 0, firstTime = Some 4, bestTime = Some 4\<rparr>,
        history = [4, 4, 4, 4],
        execute = (), iterations = 1\<rparr>], [FirstExecution ''f'' 4])
   \<and> executeSamples [(0, 4)]
       [\<lparr>name = ''f'', code = ''c'',
        stats = \<lparr>callCount = 4, totalTime = 16, avgTime = 4, status = cold,
          optimizationLevel = 0, firstTime = Some 4, bestTime = Some 4\<rparr>,
        history = [4, 4, 4, 4],
        execute = (), iterations = 1\<rparr>] =
     Some ([\<lparr>name = ''f'', code = ''c'',
        stats = \<lparr>callCount = 5, totalTime = 20, avgTime = 4, status = warming,
          optimizationLevel = 0, firstTime = Some 4, bestTime = Some 4\<rparr>,
        history = [4, 4, 4, 4, 4],
        execute = (), iterations = 1\<rparr>], [WarmingJIT ''f''])
   \<and> classify 4 = cold \<and> classify 5 = warming \<and> rank cold \<le> rank warming
   \<and> simulateSamples [(0, 1 / 2), (0, 1 / 2), (0, 1 / 2), (0, 1 / 2)]
       (resetFunctionsSim [\<lparr>name = ''g'', code = ''c'', stats = resetStatsSim, history = []\<rparr>]) =
     Some ([\<lparr>name = ''g'', code = ''c'',
        stats = \<lparr>callCount = 4, totalTime = 400, avgTime = 100, status = cold,
          optimizationLevel = 0\<rparr>,
        history = [100, 100, 100, 100]\<rparr>], [])
   \<and> simulateSamples [(0, 1 / 2)]
       [\<lparr>name = ''g'', code = ''c'',
        stats = \<lparr>callCount = 4, totalTime = 400, avgTime = 100, status = cold,
          optimizationLevel = 0\<rparr>,
        history = [100, 100, 100, 100]\<rparr>] =
     Some ([\<lparr>name = ''g'', code = ''c'',
        stats = \<lparr>callCount = 5, totalTime = 500, avgTime = 100, status = warming,
          optimizationLevel = 3602879701896397 / 18014398509481984\<rparr>,
        history = [100, 100, 100, 100, 100]\<rparr>], [WarmingProfiling ''g''])"
proof -
  let ?F = "\<lparr>name = ''f'', code = ''c'', stats = resetStats, history = [],
        execute = (), iterations = 1\<rparr>"
  let ?F4 = "\<lparr>name = ''f'', code = ''c'',
        stats = \<lparr>callCount = 4, totalTime = 16, avgTime = 4, status = cold,
          optimizationLevel = 0, firstTime = Some 4, bestTime = Some 4\<rparr>,
        history = [4, 4, 4, 4],
        execute = (), iterations = 1\<rparr>"
  let ?F5 = "\<lparr>name = ''f'', code = ''c'',
        stats = \<lparr>callCount = 5, totalTime = 20, avgTime = 4, status = warming,
          optimizationLevel = 0, firstTime = Some 4, bestTime = Some 4\<rparr>,
        history = [4, 4, 4, 4, 4],
        execute = (), iterations = 1\<rparr>"
  let ?G = "\<lparr>name = ''g'', code = ''c'', stats = resetStatsSim, history = []\<rparr>"
  let ?G4 = "\<lparr>name = ''g'', code = ''c'',
        stats = \<lparr>callCount = 4, totalTime = 400, avgTime = 100, status = cold,
          optimizationLevel = 0\<rparr>,
        history = [100, 100, 100, 100]\<rparr>"
  let ?G5 = "\<lparr>name = ''g'', code = ''c'',
        stats = \<lparr>callCount = 5, totalTime = 500, avgTime = 100, status = warming,
          optimizationLevel = 3602879701896397 / 18014398509481984\<rparr>,
        history = [100, 100, 100, 100, 100]\<rparr>"
  have a: "executeSamples [(0, 4), (0, 4), (0, 4), (0, 4)] (resetFunctions [?F]) =
    Some ([?F4], [FirstExecution ''f'' 4])"
    by (simp add: sampler_defs fl_simps)
  have b: "executeSamples [(0, 4)] [?F4] = Some ([?F5], [WarmingJIT ''f''])"
    by (simp add: sampler_defs fl_simps)
  have c: "simulateSamples [(0, 1 / 2), (0, 1 / 2), (0, 1 / 2), (0, 1 / 2)] (resetFunctionsSim [?G]) = Some ([?G4], [])"
    by (simp add: sampler_defs fl_simps)
  have d: "simulateSamples [(0, 1 / 2)] [?G4] = Some ([?G5], [WarmingProfiling ''g''])"
    by (simp add: sampler_defs fl_simps)
  from C1_status_by_thresholds_monotonic [where xs = "[(0, 4), (0, 4), (0, 4), (0, 4)]"
      and fs = "[?F]" and fs' = "[?F4]" and ys = "[(0, 4)]" and fs'' = "[?F5]" and j = 0
      and m = "[FirstExecution ''f'' 4]" and m' = "[WarmingJIT ''f'']"
      and us = "[(0, 1 / 2), (0, 1 / 2), (0, 1 / 2), (0, 1 / 2)]" and gs = "[?G]"
      and gs' = "[?G4]" and n = "[]" and vs = "[(0, 1 / 2)]" and gs'' = "[?G5]"
      and n' = "[WarmingProfiling ''g'']" and k = 0] a b c d
  have "classify 4 = cold \<and> classify 5 = warming \<and> rank cold \<le> rank warming"
    by simp
  with a b c d show ?thesis by simp
qed

subsection \<open>C2\<close>

text \<open>
  C2. A sample logs a status line exactly when it changes the status of its
  record: the status lines among the messages of one sample are the single line
  announcing the new status when the status after the sample differs from the one
  before, and none when the status is the same. It holds in every state, for
  \<^verbatim>\<open>executeFunction\<close> and for \<^verbatim>\<open>simulateExecution\<close>.
\<close>

theorem C2_transition_logged_once_per_change:
  "(executeFunction i t fs = Some (fs', m) \<longrightarrow>
      List.map_filter transitionOf m =
        (if status (stats (fs' ! i)) \<noteq> status (stats (fs ! i))
         then [(name (fs ! i), status (stats (fs' ! i)))] else []))
   \<and>
   (simulateExecution k r gs = Some (gs', n) \<longrightarrow>
      List.map_filter transitionOf n =
        (if status (stats (gs' ! k)) \<noteq> status (stats (gs ! k))
         then [(name (gs ! k), status (stats (gs' ! k)))] else []))"
proof (rule conjI)
  show "executeFunction i t fs = Some (fs', m) \<longrightarrow>
      List.map_filter transitionOf m =
        (if status (stats (fs' ! i)) \<noteq> status (stats (fs ! i))
         then [(name (fs ! i), status (stats (fs' ! i)))] else [])"
  proof
    assume "executeFunction i t fs = Some (fs', m)"
    then have "i < length fs"
      and "stats (fs' ! i) = sampleStats (name (fs ! i)) t (stats (fs ! i))"
      and "m = sampleMessages (name (fs ! i)) t (stats (fs ! i))"
      by (simp_all add: executeFunction_eq)
    then show "List.map_filter transitionOf m =
        (if status (stats (fs' ! i)) \<noteq> status (stats (fs ! i))
         then [(name (fs ! i), status (stats (fs' ! i)))] else [])"
      by (simp only: transitions_sampleMessages)
  qed
next
  show "simulateExecution k r gs = Some (gs', n) \<longrightarrow>
      List.map_filter transitionOf n =
        (if status (stats (gs' ! k)) \<noteq> status (stats (gs ! k))
         then [(name (gs ! k), status (stats (gs' ! k)))] else [])"
  proof
    assume "simulateExecution k r gs = Some (gs', n)"
    then have "k < length gs"
      and "stats (gs' ! k) = sampleStatsSim (name (gs ! k)) r (stats (gs ! k))"
      and "n = sampleMessagesSim (name (gs ! k)) r (stats (gs ! k))"
      by (simp_all add: simulateExecution_eq)
    then show "List.map_filter transitionOf n =
        (if status (stats (gs' ! k)) \<noteq> status (stats (gs ! k))
         then [(name (gs ! k), status (stats (gs' ! k)))] else [])"
      by (simp only: transitions_sampleMessagesSim)
  qed
qed

theorem C2_witness:
  "executeFunction 0 4
     [\<lparr>name = ''f'', code = ''c'',
        stats = \<lparr>callCount = 4, totalTime = 16, avgTime = 4, status = cold,
          optimizationLevel = 0, firstTime = Some 4, bestTime = Some 4\<rparr>,
        history = [4, 4, 4, 4],
        execute = (), iterations = 1\<rparr>] =
   Some ([\<lparr>name = ''f'', code = ''c'',
        stats = \<lparr>callCount = 5, totalTime = 20, avgTime = 4, status = warming,
          optimizationLevel = 0, firstTime = Some 4, bestTime = Some 4\<rparr>,
        history = [4, 4, 4, 4, 4],
        execute = (), iterations = 1\<rparr>], [WarmingJIT ''f''])
   \<and> List.map_filter transitionOf [WarmingJIT ''f''] = [(''f'', warming)]
   \<and> simulateExecution 0 (1 / 2)
       [\<lparr>name = ''g'', code = ''c'',
        stats = \<lparr>callCount = 3, totalTime = 300, avgTime = 100, status = cold,
          optimizationLevel = 0\<rparr>,
        history = [100, 100, 100]\<rparr>] =
     Some ([\<lparr>name = ''g'', code = ''c'',
        stats = \<lparr>callCount = 4, totalTime = 400, avgTime = 100, status = cold,
          optimizationLevel = 0\<rparr>,
        history = [100, 100, 100, 100]\<rparr>], [])
   \<and> List.map_filter transitionOf ([] :: Message list) = []"
proof -
  let ?F4 = "\<lparr>name = ''f'', code = ''c'',
        stats = \<lparr>callCount = 4, totalTime = 16, avgTime = 4, status = cold,
          optimizationLevel = 0, firstTime = Some 4, bestTime = Some 4\<rparr>,
        history = [4, 4, 4, 4],
        execute = (), iterations = 1\<rparr>"
  let ?F5 = "\<lparr>name = ''f'', code = ''c'',
        stats = \<lparr>callCount = 5, totalTime = 20, avgTime = 4, status = warming,
          optimizationLevel = 0, firstTime = Some 4, bestTime = Some 4\<rparr>,
        history = [4, 4, 4, 4, 4],
        execute = (), iterations = 1\<rparr>"
  let ?G3 = "\<lparr>name = ''g'', code = ''c'',
        stats = \<lparr>callCount = 3, totalTime = 300, avgTime = 100, status = cold,
          optimizationLevel = 0\<rparr>,
        history = [100, 100, 100]\<rparr>"
  let ?G4 = "\<lparr>name = ''g'', code = ''c'',
        stats = \<lparr>callCount = 4, totalTime = 400, avgTime = 100, status = cold,
          optimizationLevel = 0\<rparr>,
        history = [100, 100, 100, 100]\<rparr>"
  have a: "executeFunction 0 4 [?F4] = Some ([?F5], [WarmingJIT ''f''])"
    by (simp add: sampler_defs fl_simps)
  have b: "simulateExecution 0 (1 / 2) [?G3] = Some ([?G4], [])"
    by (simp add: sampler_defs fl_simps)
  from C2_transition_logged_once_per_change [where i = 0 and t = 4 and fs = "[?F4]"
      and fs' = "[?F5]" and m = "[WarmingJIT ''f'']" and k = 0 and r = "1 / 2"
      and gs = "[?G3]" and gs' = "[?G4]" and n = "[]"] a b
  have "List.map_filter transitionOf [WarmingJIT ''f''] = [(''f'', warming)]
    \<and> List.map_filter transitionOf ([] :: Message list) = []"
    by simp
  with a b show ?thesis by simp
qed

subsection \<open>C3\<close>

text \<open>
  C3 fails as stated: 31 samples of one record after a reset leave 31 durations
  in its history on the measured page, and 21 samples leave 21 on the simulated
  page.
\<close>

theorem C3_history_bound_counterexample:
  "map_option (\<lambda>p. map (\<lambda>f. length (history f)) (fst p))
     (executeSamples (replicate 31 (0, 1))
        (resetFunctions [\<lparr>name = ''f'', code = ''c'', stats = resetStats, history = [],
           execute = (), iterations = 1\<rparr>])) = Some [31]
   \<and> map_option (\<lambda>p. map (\<lambda>f. length (history f)) (fst p))
     (simulateSamples (replicate 21 (0, 0))
        (resetFunctionsSim [\<lparr>name = ''g'', code = ''c'', stats = resetStatsSim,
           history = []\<rparr>])) = Some [21]"
proof -
  let ?F = "\<lparr>name = ''f'', code = ''c'', stats = resetStats, history = [],
           execute = (), iterations = 1\<rparr>"
  let ?G = "\<lparr>name = ''g'', code = ''c'', stats = resetStatsSim, history = []\<rparr>"
  have "\<forall>x \<in> set (replicate 31 (0, 1 :: real)). fst x < length (resetFunctions [?F])"
    by (simp add: reset_stats)
  from executeSamples_total [OF this] obtain fs' m where
    a: "executeSamples (replicate 31 (0, 1)) (resetFunctions [?F]) = Some (fs', m)"
    by blast
  from executeSamples_length [OF a] have la: "length fs' = 1" by (simp add: reset_stats)
  from measured_history_run [OF a, of 0] have "length (history (fs' ! 0)) = 31"
    by (simp add: length_slice_last)
  with la have ra: "map (\<lambda>f. length (history f)) fs' = [31]"
    by (cases fs') simp_all
  have "\<forall>x \<in> set (replicate 21 (0, 0 :: real)). fst x < length (resetFunctionsSim [?G])"
    by (simp add: resetSim_stats)
  from simulateSamples_total [OF this] obtain gs' n where
    b: "simulateSamples (replicate 21 (0, 0)) (resetFunctionsSim [?G]) = Some (gs', n)"
    by blast
  from simulateSamples_length [OF b] have lb: "length gs' = 1" by (simp add: resetSim_stats)
  from simulated_history_run [OF b, of 0] have "length (history (gs' ! 0)) = 21"
    by simp
  with lb have rb: "map (\<lambda>f. length (history f)) gs' = [21]"
    by (cases gs') simp_all
  from a ra b rb show ?thesis by simp
qed

text \<open>
  C3 as amended. A sample keeps the last 30 entries of the history (20 in the
  simulated page), in their order, and appends the new duration; so from the
  reset state the history of a record holds the durations of its last 31 samples
  (21 in the simulated page), oldest first, and its length is never above 31
  (21).
\<close>

theorem C3_history_keeps_last_31_or_21:
  "(executeFunction i t hs = Some (hs', m) \<longrightarrow>
      history (hs' ! i) = slice_last 30 (history (hs ! i)) @ [t])
   \<and>
   (executeSamples xs (resetFunctions fs) = Some (fs'', m') \<and> j < length fs \<longrightarrow>
      history (fs'' ! j) = slice_last 31 (map snd (filter (\<lambda>x. fst x = j) xs)) \<and>
      length (history (fs'' ! j)) = min 31 (length (filter (\<lambda>x. fst x = j) xs)) \<and>
      length (history (fs'' ! j)) \<le> 31)
   \<and>
   (simulateExecution k r ks = Some (ks', n) \<longrightarrow>
      history (ks' ! k) =
        slice_last 20 (history (ks ! k)) @ [simulatedTime r (optimizationLevel (stats (ks ! k)))])
   \<and>
   (simulateSamples us (resetFunctionsSim gs) = Some (gs'', n') \<and> l < length gs \<longrightarrow>
      length (history (gs'' ! l)) = min 21 (length (filter (\<lambda>x. fst x = l) us)) \<and>
      length (history (gs'' ! l)) \<le> 21)"
proof (intro conjI)
  show "executeFunction i t hs = Some (hs', m) \<longrightarrow>
      history (hs' ! i) = slice_last 30 (history (hs ! i)) @ [t]"
    by (simp add: executeFunction_eq)
  show "executeSamples xs (resetFunctions fs) = Some (fs'', m') \<and> j < length fs \<longrightarrow>
      history (fs'' ! j) = slice_last 31 (map snd (filter (\<lambda>x. fst x = j) xs)) \<and>
      length (history (fs'' ! j)) = min 31 (length (filter (\<lambda>x. fst x = j) xs)) \<and>
      length (history (fs'' ! j)) \<le> 31"
  proof
    assume "executeSamples xs (resetFunctions fs) = Some (fs'', m') \<and> j < length fs"
    then have "history (fs'' ! j) = slice_last 31 (map snd (filter (\<lambda>x. fst x = j) xs))"
      by (simp add: measured_history_run [of xs fs fs'' m' j])
    then show "history (fs'' ! j) = slice_last 31 (map snd (filter (\<lambda>x. fst x = j) xs)) \<and>
      length (history (fs'' ! j)) = min 31 (length (filter (\<lambda>x. fst x = j) xs)) \<and>
      length (history (fs'' ! j)) \<le> 31"
      by (simp add: length_slice_last)
  qed
  show "simulateExecution k r ks = Some (ks', n) \<longrightarrow>
      history (ks' ! k) =
        slice_last 20 (history (ks ! k)) @ [simulatedTime r (optimizationLevel (stats (ks ! k)))]"
    by (simp add: simulateExecution_eq)
  show "simulateSamples us (resetFunctionsSim gs) = Some (gs'', n') \<and> l < length gs \<longrightarrow>
      length (history (gs'' ! l)) = min 21 (length (filter (\<lambda>x. fst x = l) us)) \<and>
      length (history (gs'' ! l)) \<le> 21"
  proof
    assume "simulateSamples us (resetFunctionsSim gs) = Some (gs'', n') \<and> l < length gs"
    then have "length (history (gs'' ! l)) = min 21 (length (filter (\<lambda>x. fst x = l) us))"
      by (simp add: simulated_history_run [of us gs gs'' n' l])
    then show "length (history (gs'' ! l)) = min 21 (length (filter (\<lambda>x. fst x = l) us)) \<and>
      length (history (gs'' ! l)) \<le> 21"
      by simp
  qed
qed

theorem C3_witness:
  "executeSamples
       [(0, 1), (0, 2), (0, 3), (0, 4), (0, 5), (0, 6), (0, 7), (0, 8), (0, 9), (0, 10),
        (0, 11), (0, 12), (0, 13), (0, 14), (0, 15), (0, 16), (0, 17), (0, 18), (0, 19), (0,
        20), (0, 21), (0, 22), (0, 23), (0, 24), (0, 25), (0, 26), (0, 27), (0, 28), (0,
        29), (0, 30), (0, 31), (0, 32)]
       (resetFunctions [\<lparr>name = ''f'', code = ''c'', stats = resetStats, history = [],
        execute = (), iterations = 1\<rparr>]) =
     Some ([\<lparr>name = ''f'', code = ''c'',
        stats = \<lparr>callCount = 32, totalTime = 528, avgTime = 33 / 2, status = optimized,
          optimizationLevel = 0, firstTime = Some 1, bestTime = Some 1\<rparr>,
        history = [2, 3, 4, 5, 6, 7, 8, 9, 10, 11, 12, 13, 14, 15, 16, 17, 18, 19, 20, 21, 22, 23,
          24, 25, 26, 27, 28, 29, 30, 31, 32],
        execute = (), iterations = 1\<rparr>], [FirstExecution ''f'' 1, WarmingJIT ''f'', HotV8 ''f'', OptimizedSpeedup ''f'' (Some 0)])
   \<and> executeFunction 0 33
       [\<lparr>name = ''f'', code = ''c'',
        stats = \<lparr>callCount = 32, totalTime = 528, avgTime = 33 / 2, status = optimized,
          optimizationLevel = 0, firstTime = Some 1, bestTime = Some 1\<rparr>,
        history = [2, 3, 4, 5, 6, 7, 8, 9, 10, 11, 12, 13, 14, 15, 16, 17, 18, 19, 20, 21, 22, 23,
          24, 25, 26, 27, 28, 29, 30, 31, 32],
        execute = (), iterations = 1\<rparr>] =
     Some ([\<lparr>name = ''f'', code = ''c'',
        stats = \<lparr>callCount = 33, totalTime = 561, avgTime = 17, status = optimized,
          optimizationLevel = 0, firstTime = Some 1, bestTime = Some 1\<rparr>,
        history = [3, 4, 5, 6, 7, 8, 9, 10, 11, 12, 13, 14, 15, 16, 17, 18, 19, 20, 21, 22, 23, 24,
          25, 26, 27, 28, 29, 30, 31, 32, 33],
        execute = (), iterations = 1\<rparr>], [])
   \<and> simulateSamples [(0, 1 / 2), (0, 1 / 2), (0, 1 / 2), (0, 1 / 2)]
       (resetFunctionsSim [\<lparr>name = ''g'', code = ''c'', stats = resetStatsSim, history = []\<rparr>]) =
     Some ([\<lparr>name = ''g'', code = ''c'',
        stats = \<lparr>callCount = 4, totalTime = 400, avgTime = 100, status = cold,
          optimizationLevel = 0\<rparr>,
        history = [100, 100, 100, 100]\<rparr>], [])
   \<and> simulateExecution 0 (1 / 2)
       [\<lparr>name = ''g'', code = ''c'',
        stats = \<lparr>callCount = 4, totalTime = 400, avgTime = 100, status = cold,
          optimizationLevel = 0\<rparr>,
        history = [100, 100, 100, 100]\<rparr>] =
     Some ([\<lparr>name = ''g'', code = ''c'',
        stats = \<lparr>callCount = 5, totalTime = 500, avgTime = 100, status = warming,
          optimizationLevel = 3602879701896397 / 18014398509481984\<rparr>,
        history = [100, 100, 100, 100, 100]\<rparr>], [WarmingProfiling ''g''])"
proof -
  let ?xs = "[(0, 1), (0, 2), (0, 3), (0, 4), (0, 5), (0, 6), (0, 7), (0, 8), (0, 9), (0, 10),
        (0, 11), (0, 12), (0, 13), (0, 14), (0, 15), (0, 16), (0, 17), (0, 18), (0, 19), (0,
        20), (0, 21), (0, 22), (0, 23), (0, 24), (0, 25), (0, 26), (0, 27), (0, 28), (0,
        29), (0, 30), (0, 31), (0, 32)]"
  let ?F = "\<lparr>name = ''f'', code = ''c'', stats = resetStats, history = [],
        execute = (), iterations = 1\<rparr>"
  let ?F32 = "\<lparr>name = ''f'', code = ''c'',
        stats = \<lparr>callCount = 32, totalTime = 528, avgTime = 33 / 2, status = optimized,
          optimizationLevel = 0, firstTime = Some 1, bestTime = Some 1\<rparr>,
        history = [2, 3, 4, 5, 6, 7, 8, 9, 10, 11, 12, 13, 14, 15, 16, 17, 18, 19, 20, 21, 22, 23,
          24, 25, 26, 27, 28, 29, 30, 31, 32],
        execute = (), iterations = 1\<rparr>"
  let ?F33 = "\<lparr>name = ''f'', code = ''c'',
        stats = \<lparr>callCount = 33, totalTime = 561, avgTime = 17, status = optimized,
          optimizationLevel = 0, firstTime = Some 1, bestTime = Some 1\<rparr>,
        history = [3, 4, 5, 6, 7, 8, 9, 10, 11, 12, 13, 14, 15, 16, 17, 18, 19, 20, 21, 22, 23, 24,
          25, 26, 27, 28, 29, 30, 31, 32, 33],
        execute = (), iterations = 1\<rparr>"
  let ?G = "\<lparr>name = ''g'', code = ''c'', stats = resetStatsSim, history = []\<rparr>"
  let ?G4 = "\<lparr>name = ''g'', code = ''c'',
        stats = \<lparr>callCount = 4, totalTime = 400, avgTime = 100, status = cold,
          optimizationLevel = 0\<rparr>,
        history = [100, 100, 100, 100]\<rparr>"
  let ?G5 = "\<lparr>name = ''g'', code = ''c'',
        stats = \<lparr>callCount = 5, totalTime = 500, avgTime = 100, status = warming,
          optimizationLevel = 3602879701896397 / 18014398509481984\<rparr>,
        history = [100, 100, 100, 100, 100]\<rparr>"
  have a: "executeSamples ?xs (resetFunctions [?F]) = Some ([?F32], [FirstExecution ''f'' 1, WarmingJIT ''f'', HotV8 ''f'', OptimizedSpeedup ''f'' (Some 0)])"
    by (simp add: sampler_defs fl_simps)
  have b: "executeFunction 0 33 [?F32] = Some ([?F33], [])"
    by (simp add: sampler_defs fl_simps)
  have c: "simulateSamples [(0, 1 / 2), (0, 1 / 2), (0, 1 / 2), (0, 1 / 2)] (resetFunctionsSim [?G]) = Some ([?G4], [])"
    by (simp add: sampler_defs fl_simps)
  have d: "simulateExecution 0 (1 / 2) [?G4] = Some ([?G5], [WarmingProfiling ''g''])"
    by (simp add: sampler_defs fl_simps)
  from C3_history_keeps_last_31_or_21 [where i = 0 and t = 33 and hs = "[?F32]"
      and hs' = "[?F33]" and m = "[]" and k = 0 and r = "1 / 2" and ks = "[?G4]"
      and ks' = "[?G5]" and n = "[WarmingProfiling ''g'']" and fs = "[?F]" and xs = ?xs
      and fs'' = "[?F32]" and m' = "[FirstExecution ''f'' 1, WarmingJIT ''f'', HotV8 ''f'', OptimizedSpeedup ''f'' (Some 0)]" and j = 0
      and us = "[(0, 1 / 2), (0, 1 / 2), (0, 1 / 2), (0, 1 / 2)]" and gs = "[?G]" and gs'' = "[?G4]" and n' = "[]" and l = 0] a b c d
  have "length (history ?F32) = 31 \<and> length (history ?G4) = 4"
    by simp
  with a b c d show ?thesis by simp
qed

subsection \<open>C4\<close>

text \<open>
  C4. On the measured page, from the reset state: a sample of a record with no
  first time sets its first and its best time to the duration; a first time is
  never overwritten; a best time is replaced only by a strictly lower duration;
  and whenever a record has both, the best time is at most the first time.
\<close>

theorem C4_bestTime_le_firstTime:
  "executeSamples xs (resetFunctions fs) = Some (fs', m) \<and>
   executeFunction i t fs' = Some (fs'', m') \<longrightarrow>
     (firstTime (stats (fs' ! i)) = None \<longrightarrow>
        firstTime (stats (fs'' ! i)) = Some t \<and> bestTime (stats (fs'' ! i)) = Some t) \<and>
     (\<forall>f. firstTime (stats (fs' ! i)) = Some f \<longrightarrow> firstTime (stats (fs'' ! i)) = Some f) \<and>
     (\<forall>b. bestTime (stats (fs' ! i)) = Some b \<longrightarrow>
        bestTime (stats (fs'' ! i)) = Some (if t < b then t else b)) \<and>
     (\<forall>j < length fs. \<forall>f b.
        firstTime (stats (fs' ! j)) = Some f \<and> bestTime (stats (fs' ! j)) = Some b \<longrightarrow> b \<le> f) \<and>
     (\<forall>j < length fs. \<forall>f b.
        firstTime (stats (fs'' ! j)) = Some f \<and> bestTime (stats (fs'' ! j)) = Some b \<longrightarrow> b \<le> f)"
proof
  assume "executeSamples xs (resetFunctions fs) = Some (fs', m) \<and>
    executeFunction i t fs' = Some (fs'', m')"
  then have run: "executeSamples xs (resetFunctions fs) = Some (fs', m)"
    and step: "executeFunction i t fs' = Some (fs'', m')"
    by simp_all
  from executeSamples_length [OF run] have len: "length fs' = length fs"
    by (simp add: reset_stats)
  from step have i: "i < length fs'"
    and s'': "stats (fs'' ! i) = sampleStats (name (fs' ! i)) t (stats (fs' ! i))"
    and other: "\<And>j. j \<noteq> i \<Longrightarrow> fs'' ! j = fs' ! j"
    by (simp_all add: executeFunction_eq)
  have inv': "\<And>j. j < length fs \<Longrightarrow> timesInv (stats (fs' ! j))"
    by (rule measured_times_run [OF run])
  have inv'': "\<And>j. j < length fs \<Longrightarrow> timesInv (stats (fs'' ! j))"
  proof -
    fix j
    assume j: "j < length fs"
    show "timesInv (stats (fs'' ! j))"
    proof (cases "j = i")
      case True
      with inv' [OF j] s'' show ?thesis by (simp add: timesInv_sampleStats)
    next
      case False
      with inv' [OF j] other show ?thesis by simp
    qed
  qed
  from i len have "timesInv (stats (fs' ! i))" by (simp add: inv')
  then have a: "firstTime (stats (fs' ! i)) = None \<longrightarrow>
        firstTime (stats (fs'' ! i)) = Some t \<and> bestTime (stats (fs'' ! i)) = Some t"
    by (auto simp add: s'' firstTime_sampleStats bestTime_sampleStats timesInv_def
        split: option.splits)
  have b: "\<forall>f. firstTime (stats (fs' ! i)) = Some f \<longrightarrow> firstTime (stats (fs'' ! i)) = Some f"
    by (simp add: s'' firstTime_sampleStats)
  have c: "\<forall>b. bestTime (stats (fs' ! i)) = Some b \<longrightarrow>
        bestTime (stats (fs'' ! i)) = Some (if t < b then t else b)"
    by (simp add: s'' bestTime_sampleStats)
  have d: "\<forall>j < length fs. \<forall>f b.
        firstTime (stats (fs' ! j)) = Some f \<and> bestTime (stats (fs' ! j)) = Some b \<longrightarrow> b \<le> f"
    using inv' by (fastforce simp add: timesInv_def)
  have e: "\<forall>j < length fs. \<forall>f b.
        firstTime (stats (fs'' ! j)) = Some f \<and> bestTime (stats (fs'' ! j)) = Some b \<longrightarrow> b \<le> f"
    using inv'' by (fastforce simp add: timesInv_def)
  from a b c d e show "(firstTime (stats (fs' ! i)) = None \<longrightarrow>
        firstTime (stats (fs'' ! i)) = Some t \<and> bestTime (stats (fs'' ! i)) = Some t) \<and>
     (\<forall>f. firstTime (stats (fs' ! i)) = Some f \<longrightarrow> firstTime (stats (fs'' ! i)) = Some f) \<and>
     (\<forall>b. bestTime (stats (fs' ! i)) = Some b \<longrightarrow>
        bestTime (stats (fs'' ! i)) = Some (if t < b then t else b)) \<and>
     (\<forall>j < length fs. \<forall>f b.
        firstTime (stats (fs' ! j)) = Some f \<and> bestTime (stats (fs' ! j)) = Some b \<longrightarrow> b \<le> f) \<and>
     (\<forall>j < length fs. \<forall>f b.
        firstTime (stats (fs'' ! j)) = Some f \<and> bestTime (stats (fs'' ! j)) = Some b \<longrightarrow> b \<le> f)"
    by (intro conjI)
qed

theorem C4_witness:
  "executeSamples [] (resetFunctions [\<lparr>name = ''f'', code = ''c'', stats = resetStats, history = [],
        execute = (), iterations = 1\<rparr>]) =
     Some ([\<lparr>name = ''f'', code = ''c'',
        stats = \<lparr>callCount = 0, totalTime = 0, avgTime = 0, status = cold,
          optimizationLevel = 0, firstTime = None, bestTime = None\<rparr>,
        history = [],
        execute = (), iterations = 1\<rparr>], [])
   \<and> executeFunction 0 4
       [\<lparr>name = ''f'', code = ''c'',
        stats = \<lparr>callCount = 0, totalTime = 0, avgTime = 0, status = cold,
          optimizationLevel = 0, firstTime = None, bestTime = None\<rparr>,
        history = [],
        execute = (), iterations = 1\<rparr>] =
     Some ([\<lparr>name = ''f'', code = ''c'',
        stats = \<lparr>callCount = 1, totalTime = 4, avgTime = 4, status = cold,
          optimizationLevel = 0, firstTime = Some 4, bestTime = Some 4\<rparr>,
        history = [4],
        execute = (), iterations = 1\<rparr>], [FirstExecution ''f'' 4])
   \<and> executeSamples [(0, 4)] (resetFunctions [\<lparr>name = ''f'', code = ''c'', stats = resetStats, history = [],
        execute = (), iterations = 1\<rparr>]) =
     Some ([\<lparr>name = ''f'', code = ''c'',
        stats = \<lparr>callCount = 1, totalTime = 4, avgTime = 4, status = cold,
          optimizationLevel = 0, firstTime = Some 4, bestTime = Some 4\<rparr>,
        history = [4],
        execute = (), iterations = 1\<rparr>], [FirstExecution ''f'' 4])
   \<and> executeFunction 0 2
       [\<lparr>name = ''f'', code = ''c'',
        stats = \<lparr>callCount = 1, totalTime = 4, avgTime = 4, status = cold,
          optimizationLevel = 0, firstTime = Some 4, bestTime = Some 4\<rparr>,
        history = [4],
        execute = (), iterations = 1\<rparr>] =
     Some ([\<lparr>name = ''f'', code = ''c'',
        stats = \<lparr>callCount = 2, totalTime = 6, avgTime = 3, status = cold,
          optimizationLevel = 5, firstTime = Some 4, bestTime = Some 2\<rparr>,
        history = [4, 2],
        execute = (), iterations = 1\<rparr>], [NewBest ''f'' 2 (Some 50)])
   \<and> (2 :: real) \<le> 4"
proof -
  let ?F = "\<lparr>name = ''f'', code = ''c'', stats = resetStats, history = [],
        execute = (), iterations = 1\<rparr>"
  let ?R = "\<lparr>name = ''f'', code = ''c'',
        stats = \<lparr>callCount = 0, totalTime = 0, avgTime = 0, status = cold,
          optimizationLevel = 0, firstTime = None, bestTime = None\<rparr>,
        history = [],
        execute = (), iterations = 1\<rparr>"
  let ?F1 = "\<lparr>name = ''f'', code = ''c'',
        stats = \<lparr>callCount = 1, totalTime = 4, avgTime = 4, status = cold,
          optimizationLevel = 0, firstTime = Some 4, bestTime = Some 4\<rparr>,
        history = [4],
        execute = (), iterations = 1\<rparr>"
  let ?F2 = "\<lparr>name = ''f'', code = ''c'',
        stats = \<lparr>callCount = 2, totalTime = 6, avgTime = 3, status = cold,
          optimizationLevel = 5, firstTime = Some 4, bestTime = Some 2\<rparr>,
        history = [4, 2],
        execute = (), iterations = 1\<rparr>"
  have a: "executeSamples [] (resetFunctions [?F]) = Some ([?R], [])"
    by (simp add: sampler_defs fl_simps)
  have b: "executeFunction 0 4 [?R] = Some ([?F1], [FirstExecution ''f'' 4])"
    by (simp add: sampler_defs fl_simps)
  have c: "executeSamples [(0, 4)] (resetFunctions [?F]) = Some ([?F1], [FirstExecution ''f'' 4])"
    by (simp add: sampler_defs fl_simps)
  have d: "executeFunction 0 2 [?F1] = Some ([?F2], [NewBest ''f'' 2 (Some 50)])"
    by (simp add: sampler_defs fl_simps)
  from C4_bestTime_le_firstTime [where xs = "[]" and fs = "[?F]" and fs' = "[?R]" and m = "[]"
      and i = 0 and t = 4 and fs'' = "[?F1]" and m' = "[FirstExecution ''f'' 4]"] a b
  have e: "firstTime (stats ?F1) = Some 4 \<and> bestTime (stats ?F1) = Some 4"
    by simp
  from C4_bestTime_le_firstTime [where xs = "[(0, 4)]" and fs = "[?F]" and fs' = "[?F1]"
      and m = "[FirstExecution ''f'' 4]" and i = 0 and t = 2 and fs'' = "[?F2]"
      and m' = "[NewBest ''f'' 2 (Some 50)]"] c d
  have "(2 :: real) \<le> 4"
    by simp
  with a b c d show ?thesis by simp
qed

subsection \<open>C5\<close>

text \<open>
  C5 fails as stated: the largest double below 1 is a draw in [0, 1), and for it
  and level 0 the value under the \<open>max\<close> is exactly 150, not below 150.
\<close>

theorem C5_prefloor_counterexample:
  "fl (1 - 1 / 2 ^ 53) = 1 - 1 / 2 ^ 53
   \<and> (0 :: real) \<le> 1 - 1 / 2 ^ 53 \<and> (1 - 1 / 2 ^ 53 :: real) < 1
   \<and> fl (baseTime (1 - 1 / 2 ^ 53) * optimizationFactor 0) = 150
   \<and> \<not> fl (baseTime (1 - 1 / 2 ^ 53) * optimizationFactor 0) < 150"
proof -
  have b: "baseTime (1 - 1 / 2 ^ 53) = 150"
    unfolding baseTime_def by (simp only: fl_largest_draw_times_100 fl_largest_draw_plus_50)
  have f: "optimizationFactor 0 = 1"
    by (simp add: optimizationFactor_def fl_0 fl_1)
  have "fl (150 :: real) = 150"
    by (simp add: fl_numeral)
  with b f have "fl (baseTime (1 - 1 / 2 ^ 53) * optimizationFactor 0) = 150"
    by simp
  with fl_largest_draw show ?thesis by simp
qed

text \<open>
  C5 as amended. The duration of a simulated sample, appended to the history and
  added to the total time, is
  \<open>max 5 ((random * 100 + 50) * (1 - L * 0.15))\<close> in double arithmetic, for the
  level \<open>L\<close> the record has before the sample. For a draw \<open>0 \<le> random < 1\<close> and
  level 0 the value under the \<open>max\<close> is at least 50 and at most 150. The
  duration is at least 5, hence neither 0 nor negative.
\<close>

theorem C5_simulated_duration:
  "(simulateExecution k r gs = Some (gs', n) \<longrightarrow>
      last (history (gs' ! k)) =
        max 5 (fl (fl (fl (r * 100) + 50) *
                   fl (1 - fl (optimizationLevel (stats (gs ! k)) * fl 0.15)))) \<and>
      totalTime (stats (gs' ! k)) =
        fl (totalTime (stats (gs ! k)) +
            max 5 (fl (fl (fl (r * 100) + 50) *
                       fl (1 - fl (optimizationLevel (stats (gs ! k)) * fl 0.15))))))
   \<and> simulatedTime random L =
       max 5 (fl (fl (fl (random * 100) + 50) * fl (1 - fl (L * fl 0.15))))
   \<and> (0 \<le> random \<and> random < 1 \<longrightarrow>
        50 \<le> fl (baseTime random * optimizationFactor 0) \<and>
        fl (baseTime random * optimizationFactor 0) \<le> 150)
   \<and> 5 \<le> simulatedTime random L \<and> simulatedTime random L \<noteq> 0
   \<and> \<not> simulatedTime random L < 0"
proof (intro conjI)
  show "simulateExecution k r gs = Some (gs', n) \<longrightarrow>
      last (history (gs' ! k)) =
        max 5 (fl (fl (fl (r * 100) + 50) *
                   fl (1 - fl (optimizationLevel (stats (gs ! k)) * fl 0.15)))) \<and>
      totalTime (stats (gs' ! k)) =
        fl (totalTime (stats (gs ! k)) +
            max 5 (fl (fl (fl (r * 100) + 50) *
                       fl (1 - fl (optimizationLevel (stats (gs ! k)) * fl 0.15)))))"
    by (simp add: simulateExecution_eq totalTime_sampleStatsSim simulatedTime_def
        baseTime_def optimizationFactor_def)
  show "simulatedTime random L =
       max 5 (fl (fl (fl (random * 100) + 50) * fl (1 - fl (L * fl 0.15))))"
    by (simp add: simulatedTime_def baseTime_def optimizationFactor_def)
  show "0 \<le> random \<and> random < 1 \<longrightarrow>
        50 \<le> fl (baseTime random * optimizationFactor 0) \<and>
        fl (baseTime random * optimizationFactor 0) \<le> 150"
  proof
    assume h: "0 \<le> random \<and> random < 1"
    have f100: "fl 100 = 100" and f50: "fl 50 = 50" and f150: "fl 150 = 150"
      by (simp_all add: fl_numeral)
    from h have "0 \<le> random * 100" and "random * 100 \<le> 100" by simp_all
    then have "0 \<le> fl (random * 100)" and "fl (random * 100) \<le> 100"
      using fl_nonneg [of "random * 100"] fl_mono_nonneg [of "random * 100" 100]
      by (simp_all add: f100)
    then have "50 \<le> fl (random * 100) + 50" and "fl (random * 100) + 50 \<le> 150"
      by simp_all
    then have "50 \<le> baseTime random \<and> baseTime random \<le> 150"
      using fl_mono_nonneg [of 50 "fl (random * 100) + 50"]
        fl_mono_nonneg [of "fl (random * 100) + 50" 150]
      by (simp add: baseTime_def f50 f150)
    moreover have "optimizationFactor 0 = 1"
      by (simp add: optimizationFactor_def fl_0 fl_1)
    moreover have "fl (baseTime random) = baseTime random"
      by (simp add: baseTime_def fl_idem)
    ultimately show "50 \<le> fl (baseTime random * optimizationFactor 0) \<and>
        fl (baseTime random * optimizationFactor 0) \<le> 150"
      by simp
  qed
  from simulatedTime_ge_5 [of random L]
  show "5 \<le> simulatedTime random L" and "simulatedTime random L \<noteq> 0"
    and "\<not> simulatedTime random L < 0"
    by simp_all
qed

theorem C5_witness:
  "simulateExecution 0 (1 / 2)
       [\<lparr>name = ''g'', code = ''c'',
        stats = \<lparr>callCount = 4, totalTime = 400, avgTime = 100, status = cold,
          optimizationLevel = 0\<rparr>,
        history = [100, 100, 100, 100]\<rparr>] =
     Some ([\<lparr>name = ''g'', code = ''c'',
        stats = \<lparr>callCount = 5, totalTime = 500, avgTime = 100, status = warming,
          optimizationLevel = 3602879701896397 / 18014398509481984\<rparr>,
        history = [100, 100, 100, 100, 100]\<rparr>], [WarmingProfiling ''g''])
   \<and> max 5 (fl (fl (fl (1 / 2 * 100) + 50) * fl (1 - fl (0 * fl 0.15)))) = 100
   \<and> (0 :: real) \<le> 1 / 2 \<and> (1 / 2 :: real) < 1
   \<and> fl (baseTime (1 / 2) * optimizationFactor 0) = 100
   \<and> simulatedTime (1 / 2) 0 = 100"
proof -
  let ?G4 = "\<lparr>name = ''g'', code = ''c'',
        stats = \<lparr>callCount = 4, totalTime = 400, avgTime = 100, status = cold,
          optimizationLevel = 0\<rparr>,
        history = [100, 100, 100, 100]\<rparr>"
  let ?G5 = "\<lparr>name = ''g'', code = ''c'',
        stats = \<lparr>callCount = 5, totalTime = 500, avgTime = 100, status = warming,
          optimizationLevel = 3602879701896397 / 18014398509481984\<rparr>,
        history = [100, 100, 100, 100, 100]\<rparr>"
  have a: "simulateExecution 0 (1 / 2) [?G4] = Some ([?G5], [WarmingProfiling ''g''])"
    by (simp add: sampler_defs fl_simps)
  from C5_simulated_duration [where k = 0 and r = "1 / 2" and gs = "[?G4]" and gs' = "[?G5]"
      and n = "[WarmingProfiling ''g'']" and random = "1 / 2" and L = 0] a
  have "max 5 (fl (fl (fl (1 / 2 * 100) + 50) * fl (1 - fl (0 * fl 0.15)))) = 100
    \<and> simulatedTime (1 / 2) 0 = 100"
    by simp
  with a show ?thesis
    by (simp add: baseTime_def optimizationFactor_def fl_simps)
qed

subsection \<open>C6\<close>

text \<open>
  C6. On the measured page, after a sample the record has a first time \<open>f\<close> and
  a best time \<open>b\<close>. If \<open>f\<close> is positive, the level is
  \<open>clamp 0 5 ((1 - b / f) * 20)\<close> in double arithmetic, which is 5 as soon as
  \<open>b\<close> is at most three quarters of \<open>f\<close>; otherwise the quotient is not
  computed and the level is the one before the sample.
\<close>

theorem C6_level_from_improvement:
  "executeFunction i t fs = Some (fs', m) \<longrightarrow>
     (\<exists>f b. firstTime (stats (fs' ! i)) = Some f \<and> bestTime (stats (fs' ! i)) = Some b \<and>
        (0 < f \<longrightarrow> optimizationLevel (stats (fs' ! i)) = clamp 0 5 (fl (fl (1 - fl (b / f)) * 20))) \<and>
        (0 < f \<and> b \<le> 0.75 * f \<longrightarrow> optimizationLevel (stats (fs' ! i)) = 5) \<and>
        (\<not> 0 < f \<longrightarrow>
           optimizationLevel (stats (fs' ! i)) = optimizationLevel (stats (fs ! i))))"
proof
  assume "executeFunction i t fs = Some (fs', m)"
  then have i: "i < length fs"
    and s': "stats (fs' ! i) = sampleStats (name (fs ! i)) t (stats (fs ! i))"
    by (simp_all add: executeFunction_eq)
  let ?s = "stats (fs ! i)"
  let ?f = "case firstTime ?s of None \<Rightarrow> t | Some f \<Rightarrow> f"
  let ?b = "case bestTime ?s of None \<Rightarrow> t | Some b \<Rightarrow> if t < b then t else b"
  have f: "firstTime (stats (fs' ! i)) = Some ?f"
    by (simp add: s' firstTime_sampleStats split: option.splits)
  have b: "bestTime (stats (fs' ! i)) = Some ?b"
    by (simp add: s' bestTime_sampleStats split: option.splits)
  have l: "optimizationLevel (stats (fs' ! i)) =
      (if 0 < ?f then min 5 (max 0 (fl (fl (1 - fl (?b / ?f)) * 20))) else optimizationLevel ?s)"
    by (simp add: s' level_sampleStats Let_def)
  have c1: "0 < ?f \<longrightarrow> optimizationLevel (stats (fs' ! i)) = clamp 0 5 (fl (fl (1 - fl (?b / ?f)) * 20))"
    by (simp add: l clamp_min_max)
  have c2: "0 < ?f \<and> ?b \<le> 0.75 * ?f \<longrightarrow> optimizationLevel (stats (fs' ! i)) = 5"
  proof
    assume h: "0 < ?f \<and> ?b \<le> 0.75 * ?f"
    then have "?b / ?f \<le> 3 / 4" by (simp add: pos_divide_le_eq)
    then have "5 \<le> fl (fl (1 - fl (?b / ?f)) * 20)" by (rule quarter_off)
    with h show "optimizationLevel (stats (fs' ! i)) = 5" by (simp add: l)
  qed
  have c3: "\<not> 0 < ?f \<longrightarrow> optimizationLevel (stats (fs' ! i)) = optimizationLevel ?s"
    by (simp add: l)
  from f b c1 c2 c3 show "\<exists>f b. firstTime (stats (fs' ! i)) = Some f \<and>
        bestTime (stats (fs' ! i)) = Some b \<and>
        (0 < f \<longrightarrow> optimizationLevel (stats (fs' ! i)) = clamp 0 5 (fl (fl (1 - fl (b / f)) * 20))) \<and>
        (0 < f \<and> b \<le> 0.75 * f \<longrightarrow> optimizationLevel (stats (fs' ! i)) = 5) \<and>
        (\<not> 0 < f \<longrightarrow>
           optimizationLevel (stats (fs' ! i)) = optimizationLevel (stats (fs ! i)))"
    by blast
qed

theorem C6_witness:
  "executeFunction 0 7
       [\<lparr>name = ''f'', code = ''c'',
        stats = \<lparr>callCount = 1, totalTime = 8, avgTime = 8, status = cold,
          optimizationLevel = 0, firstTime = Some 8, bestTime = Some 8\<rparr>,
        history = [8],
        execute = (), iterations = 1\<rparr>] =
     Some ([\<lparr>name = ''f'', code = ''c'',
        stats = \<lparr>callCount = 2, totalTime = 15, avgTime = 15 / 2, status = cold,
          optimizationLevel = 5 / 2, firstTime = Some 8, bestTime = Some 7\<rparr>,
        history = [8, 7],
        execute = (), iterations = 1\<rparr>], [NewBest ''f'' 7 (Some (25 / 2))])
   \<and> clamp 0 5 (fl (fl (1 - fl (7 / 8)) * 20)) = 5 / 2
   \<and> executeFunction 0 6
       [\<lparr>name = ''f'', code = ''c'',
        stats = \<lparr>callCount = 1, totalTime = 8, avgTime = 8, status = cold,
          optimizationLevel = 0, firstTime = Some 8, bestTime = Some 8\<rparr>,
        history = [8],
        execute = (), iterations = 1\<rparr>] =
     Some ([\<lparr>name = ''f'', code = ''c'',
        stats = \<lparr>callCount = 2, totalTime = 14, avgTime = 7, status = cold,
          optimizationLevel = 5, firstTime = Some 8, bestTime = Some 6\<rparr>,
        history = [8, 6],
        execute = (), iterations = 1\<rparr>], [NewBest ''f'' 6 (Some 25)])
   \<and> (6 :: real) \<le> 0.75 * 8
   \<and> executeFunction 0 0
       [\<lparr>name = ''f'', code = ''c'',
        stats = \<lparr>callCount = 1, totalTime = 0, avgTime = 0, status = cold,
          optimizationLevel = 0, firstTime = Some 0, bestTime = Some 0\<rparr>,
        history = [0],
        execute = (), iterations = 1\<rparr>] =
     Some ([\<lparr>name = ''f'', code = ''c'',
        stats = \<lparr>callCount = 2, totalTime = 0, avgTime = 0, status = cold,
          optimizationLevel = 0, firstTime = Some 0, bestTime = Some 0\<rparr>,
        history = [0, 0],
        execute = (), iterations = 1\<rparr>], [])
   \<and> \<not> (0 :: real) < 0"
proof -
  let ?F8 = "\<lparr>name = ''f'', code = ''c'',
        stats = \<lparr>callCount = 1, totalTime = 8, avgTime = 8, status = cold,
          optimizationLevel = 0, firstTime = Some 8, bestTime = Some 8\<rparr>,
        history = [8],
        execute = (), iterations = 1\<rparr>"
  let ?F87 = "\<lparr>name = ''f'', code = ''c'',
        stats = \<lparr>callCount = 2, totalTime = 15, avgTime = 15 / 2, status = cold,
          optimizationLevel = 5 / 2, firstTime = Some 8, bestTime = Some 7\<rparr>,
        history = [8, 7],
        execute = (), iterations = 1\<rparr>"
  let ?F86 = "\<lparr>name = ''f'', code = ''c'',
        stats = \<lparr>callCount = 2, totalTime = 14, avgTime = 7, status = cold,
          optimizationLevel = 5, firstTime = Some 8, bestTime = Some 6\<rparr>,
        history = [8, 6],
        execute = (), iterations = 1\<rparr>"
  let ?Z0 = "\<lparr>name = ''f'', code = ''c'',
        stats = \<lparr>callCount = 1, totalTime = 0, avgTime = 0, status = cold,
          optimizationLevel = 0, firstTime = Some 0, bestTime = Some 0\<rparr>,
        history = [0],
        execute = (), iterations = 1\<rparr>"
  let ?Z1 = "\<lparr>name = ''f'', code = ''c'',
        stats = \<lparr>callCount = 2, totalTime = 0, avgTime = 0, status = cold,
          optimizationLevel = 0, firstTime = Some 0, bestTime = Some 0\<rparr>,
        history = [0, 0],
        execute = (), iterations = 1\<rparr>"
  have a: "executeFunction 0 7 [?F8] = Some ([?F87], [NewBest ''f'' 7 (Some (25 / 2))])"
    by (simp add: sampler_defs fl_simps)
  have b: "executeFunction 0 6 [?F8] = Some ([?F86], [NewBest ''f'' 6 (Some 25)])"
    by (simp add: sampler_defs fl_simps)
  have c: "executeFunction 0 0 [?Z0] = Some ([?Z1], [])"
    by (simp add: sampler_defs fl_simps)
  from C6_level_from_improvement [where i = 0 and t = 7 and fs = "[?F8]"
      and fs' = "[?F87]" and m = "[NewBest ''f'' 7 (Some (25 / 2))]"] a
  have "clamp 0 5 (fl (fl (1 - fl (7 / 8)) * 20)) = 5 / 2"
    by (simp add: clamp_def fl_simps)
  moreover
  from C6_level_from_improvement [where i = 0 and t = 6 and fs = "[?F8]"
      and fs' = "[?F86]" and m = "[NewBest ''f'' 6 (Some 25)]"] b
  have "(6 :: real) \<le> 0.75 * 8"
    by simp
  moreover
  from C6_level_from_improvement [where i = 0 and t = 0 and fs = "[?Z0]"
      and fs' = "[?Z1]" and m = "[]"] c
  have "\<not> (0 :: real) < 0"
    by simp
  ultimately show ?thesis using a b c by simp
qed

subsection \<open>C7\<close>

text \<open>
  C7. On the simulated page a sample adds 1 to the call count and, in every
  state, leaves the level as it was while the new count is below 5 and otherwise
  sets it to the level before plus 0.2, capped at 2, when the new count is in
  the warming tier, plus 0.3, capped at 4, when it is in the hot tier, and plus
  0.5, capped at 5, when it is in the optimized tier (the sums are those of
  double arithmetic); so the level after a warming, hot or optimized sample is
  at most 2, 4 or 5. When the status before the sample is the one of the
  thresholds, the tier of the new count is the resulting status. From the reset
  state the status is always the one of the thresholds, the level does not
  decrease, and the level of every record stays between 0 and 5.
\<close>

theorem C7_simulated_level_steps:
  "(simulateExecution i q hs = Some (hs', m) \<longrightarrow>
     callCount (stats (hs' ! i)) = Suc (callCount (stats (hs ! i))) \<and>
     optimizationLevel (stats (hs' ! i)) =
       (case classify (callCount (stats (hs' ! i))) of
          cold \<Rightarrow> optimizationLevel (stats (hs ! i))
        | warming \<Rightarrow> min 2 (fl (optimizationLevel (stats (hs ! i)) + fl 0.2))
        | hot \<Rightarrow> min 4 (fl (optimizationLevel (stats (hs ! i)) + fl 0.3))
        | optimized \<Rightarrow> min 5 (fl (optimizationLevel (stats (hs ! i)) + fl 0.5))) \<and>
     (classify (callCount (stats (hs' ! i))) = warming \<longrightarrow> optimizationLevel (stats (hs' ! i)) \<le> 2) \<and>
     (classify (callCount (stats (hs' ! i))) = hot \<longrightarrow> optimizationLevel (stats (hs' ! i)) \<le> 4) \<and>
     (classify (callCount (stats (hs' ! i))) = optimized \<longrightarrow> optimizationLevel (stats (hs' ! i)) \<le> 5) \<and>
     (status (stats (hs ! i)) = classify (callCount (stats (hs ! i))) \<longrightarrow>
        status (stats (hs' ! i)) = classify (callCount (stats (hs' ! i))) \<and>
        optimizationLevel (stats (hs' ! i)) =
       (case status (stats (hs' ! i)) of
          cold \<Rightarrow> optimizationLevel (stats (hs ! i))
        | warming \<Rightarrow> min 2 (fl (optimizationLevel (stats (hs ! i)) + fl 0.2))
        | hot \<Rightarrow> min 4 (fl (optimizationLevel (stats (hs ! i)) + fl 0.3))
        | optimized \<Rightarrow> min 5 (fl (optimizationLevel (stats (hs ! i)) + fl 0.5)))))
   \<and>
   (simulateSamples us (resetFunctionsSim gs) = Some (gs', n) \<and>
   simulateExecution k r gs' = Some (gs'', n') \<longrightarrow>
     status (stats (gs' ! k)) = classify (callCount (stats (gs' ! k))) \<and>
     optimizationLevel (stats (gs'' ! k)) =
       (case status (stats (gs'' ! k)) of
          cold \<Rightarrow> optimizationLevel (stats (gs' ! k))
        | warming \<Rightarrow> min 2 (fl (optimizationLevel (stats (gs' ! k)) + fl 0.2))
        | hot \<Rightarrow> min 4 (fl (optimizationLevel (stats (gs' ! k)) + fl 0.3))
        | optimized \<Rightarrow> min 5 (fl (optimizationLevel (stats (gs' ! k)) + fl 0.5))) \<and>
     optimizationLevel (stats (gs' ! k)) \<le> optimizationLevel (stats (gs'' ! k)) \<and>
     (\<forall>j < length gs.
        0 \<le> optimizationLevel (stats (gs' ! j)) \<and> optimizationLevel (stats (gs' ! j)) \<le> 5 \<and>
        0 \<le> optimizationLevel (stats (gs'' ! j)) \<and> optimizationLevel (stats (gs'' ! j)) \<le> 5))"
proof (rule conjI)
  show "simulateExecution i q hs = Some (hs', m) \<longrightarrow>
     callCount (stats (hs' ! i)) = Suc (callCount (stats (hs ! i))) \<and>
     optimizationLevel (stats (hs' ! i)) =
       (case classify (callCount (stats (hs' ! i))) of
          cold \<Rightarrow> optimizationLevel (stats (hs ! i))
        | warming \<Rightarrow> min 2 (fl (optimizationLevel (stats (hs ! i)) + fl 0.2))
        | hot \<Rightarrow> min 4 (fl (optimizationLevel (stats (hs ! i)) + fl 0.3))
        | optimized \<Rightarrow> min 5 (fl (optimizationLevel (stats (hs ! i)) + fl 0.5))) \<and>
     (classify (callCount (stats (hs' ! i))) = warming \<longrightarrow> optimizationLevel (stats (hs' ! i)) \<le> 2) \<and>
     (classify (callCount (stats (hs' ! i))) = hot \<longrightarrow> optimizationLevel (stats (hs' ! i)) \<le> 4) \<and>
     (classify (callCount (stats (hs' ! i))) = optimized \<longrightarrow> optimizationLevel (stats (hs' ! i)) \<le> 5) \<and>
     (status (stats (hs ! i)) = classify (callCount (stats (hs ! i))) \<longrightarrow>
        status (stats (hs' ! i)) = classify (callCount (stats (hs' ! i))) \<and>
        optimizationLevel (stats (hs' ! i)) =
       (case status (stats (hs' ! i)) of
          cold \<Rightarrow> optimizationLevel (stats (hs ! i))
        | warming \<Rightarrow> min 2 (fl (optimizationLevel (stats (hs ! i)) + fl 0.2))
        | hot \<Rightarrow> min 4 (fl (optimizationLevel (stats (hs ! i)) + fl 0.3))
        | optimized \<Rightarrow> min 5 (fl (optimizationLevel (stats (hs ! i)) + fl 0.5))))"
  proof
    assume "simulateExecution i q hs = Some (hs', m)"
    then have s': "stats (hs' ! i) = sampleStatsSim (name (hs ! i)) q (stats (hs ! i))"
      by (simp add: simulateExecution_eq)
    let ?s = "stats (hs ! i)"
    have cc: "callCount (stats (hs' ! i)) = Suc (callCount ?s)"
      by (simp add: s' callCount_sampleStatsSim)
    have lv: "optimizationLevel (stats (hs' ! i)) =
       (case classify (callCount (stats (hs' ! i))) of
          cold \<Rightarrow> optimizationLevel (stats (hs ! i))
        | warming \<Rightarrow> min 2 (fl (optimizationLevel (stats (hs ! i)) + fl 0.2))
        | hot \<Rightarrow> min 4 (fl (optimizationLevel (stats (hs ! i)) + fl 0.3))
        | optimized \<Rightarrow> min 5 (fl (optimizationLevel (stats (hs ! i)) + fl 0.5)))"
      unfolding cc unfolding s' by (rule level_sampleStatsSim_any)
    have c2: "classify (callCount (stats (hs' ! i))) = warming \<longrightarrow> optimizationLevel (stats (hs' ! i)) \<le> 2"
      and c4: "classify (callCount (stats (hs' ! i))) = hot \<longrightarrow> optimizationLevel (stats (hs' ! i)) \<le> 4"
      and c5: "classify (callCount (stats (hs' ! i))) = optimized \<longrightarrow> optimizationLevel (stats (hs' ! i)) \<le> 5"
      unfolding cc unfolding s' by (simp_all add: level_sampleStatsSim_caps)
    have cs: "status ?s = classify (callCount ?s) \<longrightarrow>
        status (stats (hs' ! i)) = classify (callCount (stats (hs' ! i))) \<and>
        optimizationLevel (stats (hs' ! i)) =
       (case status (stats (hs' ! i)) of
          cold \<Rightarrow> optimizationLevel (stats (hs ! i))
        | warming \<Rightarrow> min 2 (fl (optimizationLevel (stats (hs ! i)) + fl 0.2))
        | hot \<Rightarrow> min 4 (fl (optimizationLevel (stats (hs ! i)) + fl 0.3))
        | optimized \<Rightarrow> min 5 (fl (optimizationLevel (stats (hs ! i)) + fl 0.5)))"
    proof
      assume st: "status ?s = classify (callCount ?s)"
      have "status (stats (hs' ! i)) = classify (callCount (stats (hs' ! i)))"
        unfolding s' by (rule status_sampleStatsSim [OF st])
      moreover have "optimizationLevel (stats (hs' ! i)) =
       (case status (stats (hs' ! i)) of
          cold \<Rightarrow> optimizationLevel (stats (hs ! i))
        | warming \<Rightarrow> min 2 (fl (optimizationLevel (stats (hs ! i)) + fl 0.2))
        | hot \<Rightarrow> min 4 (fl (optimizationLevel (stats (hs ! i)) + fl 0.3))
        | optimized \<Rightarrow> min 5 (fl (optimizationLevel (stats (hs ! i)) + fl 0.5)))"
        unfolding s' by (rule level_sampleStatsSim [OF st])
      ultimately show "status (stats (hs' ! i)) = classify (callCount (stats (hs' ! i))) \<and>
        optimizationLevel (stats (hs' ! i)) =
       (case status (stats (hs' ! i)) of
          cold \<Rightarrow> optimizationLevel (stats (hs ! i))
        | warming \<Rightarrow> min 2 (fl (optimizationLevel (stats (hs ! i)) + fl 0.2))
        | hot \<Rightarrow> min 4 (fl (optimizationLevel (stats (hs ! i)) + fl 0.3))
        | optimized \<Rightarrow> min 5 (fl (optimizationLevel (stats (hs ! i)) + fl 0.5)))"
        by (rule conjI)
    qed
    from cc lv c2 c4 c5 cs show "callCount (stats (hs' ! i)) = Suc (callCount (stats (hs ! i))) \<and>
     optimizationLevel (stats (hs' ! i)) =
       (case classify (callCount (stats (hs' ! i))) of
          cold \<Rightarrow> optimizationLevel (stats (hs ! i))
        | warming \<Rightarrow> min 2 (fl (optimizationLevel (stats (hs ! i)) + fl 0.2))
        | hot \<Rightarrow> min 4 (fl (optimizationLevel (stats (hs ! i)) + fl 0.3))
        | optimized \<Rightarrow> min 5 (fl (optimizationLevel (stats (hs ! i)) + fl 0.5))) \<and>
     (classify (callCount (stats (hs' ! i))) = warming \<longrightarrow> optimizationLevel (stats (hs' ! i)) \<le> 2) \<and>
     (classify (callCount (stats (hs' ! i))) = hot \<longrightarrow> optimizationLevel (stats (hs' ! i)) \<le> 4) \<and>
     (classify (callCount (stats (hs' ! i))) = optimized \<longrightarrow> optimizationLevel (stats (hs' ! i)) \<le> 5) \<and>
     (status (stats (hs ! i)) = classify (callCount (stats (hs ! i))) \<longrightarrow>
        status (stats (hs' ! i)) = classify (callCount (stats (hs' ! i))) \<and>
        optimizationLevel (stats (hs' ! i)) =
       (case status (stats (hs' ! i)) of
          cold \<Rightarrow> optimizationLevel (stats (hs ! i))
        | warming \<Rightarrow> min 2 (fl (optimizationLevel (stats (hs ! i)) + fl 0.2))
        | hot \<Rightarrow> min 4 (fl (optimizationLevel (stats (hs ! i)) + fl 0.3))
        | optimized \<Rightarrow> min 5 (fl (optimizationLevel (stats (hs ! i)) + fl 0.5))))"
      by (intro conjI)
  qed
next
  show "simulateSamples us (resetFunctionsSim gs) = Some (gs', n) \<and>
   simulateExecution k r gs' = Some (gs'', n') \<longrightarrow>
     status (stats (gs' ! k)) = classify (callCount (stats (gs' ! k))) \<and>
     optimizationLevel (stats (gs'' ! k)) =
       (case status (stats (gs'' ! k)) of
          cold \<Rightarrow> optimizationLevel (stats (gs' ! k))
        | warming \<Rightarrow> min 2 (fl (optimizationLevel (stats (gs' ! k)) + fl 0.2))
        | hot \<Rightarrow> min 4 (fl (optimizationLevel (stats (gs' ! k)) + fl 0.3))
        | optimized \<Rightarrow> min 5 (fl (optimizationLevel (stats (gs' ! k)) + fl 0.5))) \<and>
     optimizationLevel (stats (gs' ! k)) \<le> optimizationLevel (stats (gs'' ! k)) \<and>
     (\<forall>j < length gs.
        0 \<le> optimizationLevel (stats (gs' ! j)) \<and> optimizationLevel (stats (gs' ! j)) \<le> 5 \<and>
        0 \<le> optimizationLevel (stats (gs'' ! j)) \<and> optimizationLevel (stats (gs'' ! j)) \<le> 5)"
  proof
  assume "simulateSamples us (resetFunctionsSim gs) = Some (gs', n) \<and>
    simulateExecution k r gs' = Some (gs'', n')"
  then have run: "simulateSamples us (resetFunctionsSim gs) = Some (gs', n)"
    and step: "simulateExecution k r gs' = Some (gs'', n')"
    by simp_all
  from simulateSamples_length [OF run] have len: "length gs' = length gs"
    by (simp add: resetSim_stats)
  from step have k: "k < length gs'"
    and s'': "stats (gs'' ! k) = sampleStatsSim (name (gs' ! k)) r (stats (gs' ! k))"
    and other: "\<And>j. j \<noteq> k \<Longrightarrow> gs'' ! j = gs' ! j"
    by (simp_all add: simulateExecution_eq)
  have inv': "\<And>j. j < length gs \<Longrightarrow> levelInv (stats (gs' ! j))"
    by (rule simulated_level_run [OF run])
  have inv'': "\<And>j. j < length gs \<Longrightarrow> levelInv (stats (gs'' ! j))"
  proof -
    fix j
    assume j: "j < length gs"
    show "levelInv (stats (gs'' ! j))"
    proof (cases "j = k")
      case True
      with inv' [OF j] s'' show ?thesis by (simp add: levelInv_sampleStatsSim)
    next
      case False
      with inv' [OF j] other show ?thesis by simp
    qed
  qed
  from k len have ik: "levelInv (stats (gs' ! k))" by (simp add: inv')
  then have st: "status (stats (gs' ! k)) = classify (callCount (stats (gs' ! k)))"
    by (simp add: levelInv_def)
  have a: "optimizationLevel (stats (gs'' ! k)) =
       (case status (stats (gs'' ! k)) of
          cold \<Rightarrow> optimizationLevel (stats (gs' ! k))
        | warming \<Rightarrow> min 2 (fl (optimizationLevel (stats (gs' ! k)) + fl 0.2))
        | hot \<Rightarrow> min 4 (fl (optimizationLevel (stats (gs' ! k)) + fl 0.3))
        | optimized \<Rightarrow> min 5 (fl (optimizationLevel (stats (gs' ! k)) + fl 0.5)))"
    unfolding s'' by (rule level_sampleStatsSim [OF st])
  have b: "optimizationLevel (stats (gs' ! k)) \<le> optimizationLevel (stats (gs'' ! k))"
    unfolding s'' by (rule levelInv_sampleStatsSim(2) [OF ik])
  have c: "\<forall>j < length gs.
        0 \<le> optimizationLevel (stats (gs' ! j)) \<and> optimizationLevel (stats (gs' ! j)) \<le> 5 \<and>
        0 \<le> optimizationLevel (stats (gs'' ! j)) \<and> optimizationLevel (stats (gs'' ! j)) \<le> 5"
  proof (intro allI impI)
    fix j
    assume j: "j < length gs"
    from inv' [OF j]
    have "0 \<le> optimizationLevel (stats (gs' ! j)) \<and> optimizationLevel (stats (gs' ! j)) \<le> 5"
      by (rule levelInv_bounds)
    moreover
    from inv'' [OF j]
    have "0 \<le> optimizationLevel (stats (gs'' ! j)) \<and> optimizationLevel (stats (gs'' ! j)) \<le> 5"
      by (rule levelInv_bounds)
    ultimately show "0 \<le> optimizationLevel (stats (gs' ! j)) \<and>
        optimizationLevel (stats (gs' ! j)) \<le> 5 \<and>
        0 \<le> optimizationLevel (stats (gs'' ! j)) \<and> optimizationLevel (stats (gs'' ! j)) \<le> 5"
      by simp
  qed
  from st a b c show "status (stats (gs' ! k)) = classify (callCount (stats (gs' ! k))) \<and>
     optimizationLevel (stats (gs'' ! k)) =
       (case status (stats (gs'' ! k)) of
          cold \<Rightarrow> optimizationLevel (stats (gs' ! k))
        | warming \<Rightarrow> min 2 (fl (optimizationLevel (stats (gs' ! k)) + fl 0.2))
        | hot \<Rightarrow> min 4 (fl (optimizationLevel (stats (gs' ! k)) + fl 0.3))
        | optimized \<Rightarrow> min 5 (fl (optimizationLevel (stats (gs' ! k)) + fl 0.5))) \<and>
     optimizationLevel (stats (gs' ! k)) \<le> optimizationLevel (stats (gs'' ! k)) \<and>
     (\<forall>j < length gs.
        0 \<le> optimizationLevel (stats (gs' ! j)) \<and> optimizationLevel (stats (gs' ! j)) \<le> 5 \<and>
        0 \<le> optimizationLevel (stats (gs'' ! j)) \<and> optimizationLevel (stats (gs'' ! j)) \<le> 5)"
      by (intro conjI)
  qed
qed

theorem C7_witness:
  "simulateExecution 0 (1 / 2)
       [\<lparr>name = ''g'', code = ''c'',
        stats = \<lparr>callCount = 7, totalTime = 700, avgTime = 100, status = warming,
          optimizationLevel = 15 / 8\<rparr>,
        history =
          [100, 100, 100, 100, 100, 100, 100]\<rparr>] =
     Some ([\<lparr>name = ''g'', code = ''c'',
        stats = \<lparr>callCount = 8, totalTime = 6175 / 8, avgTime = 6175 / 64, status = warming,
          optimizationLevel = 2\<rparr>,
        history =
          [100, 100, 100, 100, 100, 100, 100, 575 / 8]\<rparr>], [])
   \<and> classify 8 = warming
   \<and> fl (15 / 8 + fl 0.2) = 2336242306698445 / 1125899906842624
   \<and> min 2 (2336242306698445 / 1125899906842624 :: real) = 2
   \<and> simulateExecution 0 (1 / 2)
       [\<lparr>name = ''g'', code = ''c'',
        stats = \<lparr>callCount = 15, totalTime = 1500, avgTime = 100, status = hot,
          optimizationLevel = 31 / 8\<rparr>,
        history =
          [100, 100, 100, 100, 100, 100, 100, 100, 100, 100, 100, 100, 100, 100, 100]\<rparr>] =
     Some ([\<lparr>name = ''g'', code = ''c'',
        stats = \<lparr>callCount = 16, totalTime = 12335 / 8, avgTime = 12335 / 128, status = hot,
          optimizationLevel = 4\<rparr>,
        history =
          [100, 100, 100, 100, 100, 100, 100, 100, 100, 100, 100, 100, 100, 100, 100,
          5893382324879361 / 140737488355328]\<rparr>], [])
   \<and> classify 16 = hot
   \<and> fl (31 / 8 + fl 0.3) = 4700632111067955 / 1125899906842624
   \<and> min 4 (4700632111067955 / 1125899906842624 :: real) = 4
   \<and> simulateSamples [(0, 1 / 2), (0, 1 / 2), (0, 1 / 2), (0, 1 / 2)]
       (resetFunctionsSim [\<lparr>name = ''g'', code = ''c'', stats = resetStatsSim, history = []\<rparr>]) =
     Some ([\<lparr>name = ''g'', code = ''c'',
        stats = \<lparr>callCount = 4, totalTime = 400, avgTime = 100, status = cold,
          optimizationLevel = 0\<rparr>,
        history =
          [100, 100, 100, 100]\<rparr>], [])
   \<and> simulateExecution 0 (1 / 2)
       [\<lparr>name = ''g'', code = ''c'',
        stats = \<lparr>callCount = 4, totalTime = 400, avgTime = 100, status = cold,
          optimizationLevel = 0\<rparr>,
        history =
          [100, 100, 100, 100]\<rparr>] =
     Some ([\<lparr>name = ''g'', code = ''c'',
        stats = \<lparr>callCount = 5, totalTime = 500, avgTime = 100, status = warming,
          optimizationLevel = 3602879701896397 / 18014398509481984\<rparr>,
        history =
          [100, 100, 100, 100, 100]\<rparr>], [WarmingProfiling ''g''])
   \<and> min 2 (fl (0 + fl 0.2)) = 3602879701896397 / 18014398509481984
   \<and> (0 :: real) \<le> 3602879701896397 / 18014398509481984
   \<and> (3602879701896397 / 18014398509481984 :: real) \<le> 5"
proof -
  let ?W7 = "\<lparr>name = ''g'', code = ''c'',
        stats = \<lparr>callCount = 7, totalTime = 700, avgTime = 100, status = warming,
          optimizationLevel = 15 / 8\<rparr>,
        history =
          [100, 100, 100, 100, 100, 100, 100]\<rparr>"
  let ?W8 = "\<lparr>name = ''g'', code = ''c'',
        stats = \<lparr>callCount = 8, totalTime = 6175 / 8, avgTime = 6175 / 64, status = warming,
          optimizationLevel = 2\<rparr>,
        history =
          [100, 100, 100, 100, 100, 100, 100, 575 / 8]\<rparr>"
  let ?H15 = "\<lparr>name = ''g'', code = ''c'',
        stats = \<lparr>callCount = 15, totalTime = 1500, avgTime = 100, status = hot,
          optimizationLevel = 31 / 8\<rparr>,
        history =
          [100, 100, 100, 100, 100, 100, 100, 100, 100, 100, 100, 100, 100, 100, 100]\<rparr>"
  let ?H16 = "\<lparr>name = ''g'', code = ''c'',
        stats = \<lparr>callCount = 16, totalTime = 12335 / 8, avgTime = 12335 / 128, status = hot,
          optimizationLevel = 4\<rparr>,
        history =
          [100, 100, 100, 100, 100, 100, 100, 100, 100, 100, 100, 100, 100, 100, 100,
          5893382324879361 / 140737488355328]\<rparr>"
  let ?G = "\<lparr>name = ''g'', code = ''c'', stats = resetStatsSim, history = []\<rparr>"
  let ?G4 = "\<lparr>name = ''g'', code = ''c'',
        stats = \<lparr>callCount = 4, totalTime = 400, avgTime = 100, status = cold,
          optimizationLevel = 0\<rparr>,
        history =
          [100, 100, 100, 100]\<rparr>"
  let ?G5 = "\<lparr>name = ''g'', code = ''c'',
        stats = \<lparr>callCount = 5, totalTime = 500, avgTime = 100, status = warming,
          optimizationLevel = 3602879701896397 / 18014398509481984\<rparr>,
        history =
          [100, 100, 100, 100, 100]\<rparr>"
  have a: "simulateSamples [(0, 1 / 2), (0, 1 / 2), (0, 1 / 2), (0, 1 / 2)] (resetFunctionsSim [?G]) = Some ([?G4], [])"
    by (simp add: sampler_defs fl_simps)
  have b: "simulateExecution 0 (1 / 2) [?G4] = Some ([?G5], [WarmingProfiling ''g''])"
    by (simp add: sampler_defs fl_simps)
  have c: "simulateExecution 0 (1 / 2) [?W7] = Some ([?W8], [])"
    by (simp add: sampler_defs fl_simps fl_cap_simps)
  have d: "simulateExecution 0 (1 / 2) [?H15] = Some ([?H16], [])"
    by (simp add: sampler_defs fl_simps fl_cap_simps)
  from C7_simulated_level_steps [where i = 0 and q = "1 / 2" and hs = "[?W7]"
      and hs' = "[?W8]" and m = "[]"
      and us = "[(0, 1 / 2), (0, 1 / 2), (0, 1 / 2), (0, 1 / 2)]"
      and gs = "[?G]" and gs' = "[?G4]" and n = "[]" and k = 0 and r = "1 / 2"
      and gs'' = "[?G5]" and n' = "[WarmingProfiling ''g'']"] a b c
  have e: "classify 8 = warming \<and> min 2 (fl (15 / 8 + fl 0.2)) = 2
    \<and> min 2 (fl (0 + fl 0.2)) = 3602879701896397 / 18014398509481984
    \<and> (0 :: real) \<le> 3602879701896397 / 18014398509481984
    \<and> (3602879701896397 / 18014398509481984 :: real) \<le> 5"
    by (simp add: classify_def)
  from C7_simulated_level_steps [where i = 0 and q = "1 / 2" and hs = "[?H15]"
      and hs' = "[?H16]" and m = "[]"
      and us = "[(0, 1 / 2), (0, 1 / 2), (0, 1 / 2), (0, 1 / 2)]"
      and gs = "[?G]" and gs' = "[?G4]" and n = "[]" and k = 0 and r = "1 / 2"
      and gs'' = "[?G5]" and n' = "[WarmingProfiling ''g'']"] a b d
  have f: "classify 16 = hot \<and> min 4 (fl (31 / 8 + fl 0.3)) = 4"
    by (simp add: classify_def)
  have g: "fl (15 / 8 + fl 0.2) = 2336242306698445 / 1125899906842624"
    and h: "fl (31 / 8 + fl 0.3) = 4700632111067955 / 1125899906842624"
    by (simp_all add: fl_simps fl_cap_simps)
  from e f g h a b c d show ?thesis by simp
qed

subsection \<open>C8\<close>

text \<open>
  C8. The reset keeps the number of records and gives every record a call count,
  total time and average time of 0, no first and no best time, level 0, status
  cold and an empty history; name, source text, workload and iteration count of
  each record stay. The simulated page does the same on its smaller records.
\<close>

theorem C8_reset_all_records:
  "(length (fst (resetAll now (fs, logs))) = length fs \<and>
    (\<forall>i < length fs.
       callCount (stats (fst (resetAll now (fs, logs)) ! i)) = 0 \<and>
       totalTime (stats (fst (resetAll now (fs, logs)) ! i)) = 0 \<and>
       avgTime (stats (fst (resetAll now (fs, logs)) ! i)) = 0 \<and>
       firstTime (stats (fst (resetAll now (fs, logs)) ! i)) = None \<and>
       bestTime (stats (fst (resetAll now (fs, logs)) ! i)) = None \<and>
       optimizationLevel (stats (fst (resetAll now (fs, logs)) ! i)) = 0 \<and>
       status (stats (fst (resetAll now (fs, logs)) ! i)) = cold \<and>
       history (fst (resetAll now (fs, logs)) ! i) = [] \<and>
       name (fst (resetAll now (fs, logs)) ! i) = name (fs ! i) \<and>
       code (fst (resetAll now (fs, logs)) ! i) = code (fs ! i) \<and>
       execute (fst (resetAll now (fs, logs)) ! i) = execute (fs ! i) \<and>
       iterations (fst (resetAll now (fs, logs)) ! i) = iterations (fs ! i)))
   \<and>
   (length (fst (resetAllSim now' (gs, logs'))) = length gs \<and>
    (\<forall>i < length gs.
       callCount (stats (fst (resetAllSim now' (gs, logs')) ! i)) = 0 \<and>
       totalTime (stats (fst (resetAllSim now' (gs, logs')) ! i)) = 0 \<and>
       avgTime (stats (fst (resetAllSim now' (gs, logs')) ! i)) = 0 \<and>
       optimizationLevel (stats (fst (resetAllSim now' (gs, logs')) ! i)) = 0 \<and>
       status (stats (fst (resetAllSim now' (gs, logs')) ! i)) = cold \<and>
       history (fst (resetAllSim now' (gs, logs')) ! i) = [] \<and>
       name (fst (resetAllSim now' (gs, logs')) ! i) = name (gs ! i) \<and>
       code (fst (resetAllSim now' (gs, logs')) ! i) = code (gs ! i)))"
  by (simp add: resetAll_def resetAllSim_def resetFunctions_def resetFunctionsSim_def
      resetStats_def resetStatsSim_def)

theorem C8_witness:
  "(0 :: nat) < length
     [\<lparr>name = ''f'', code = ''c'',
        stats = \<lparr>callCount = 5, totalTime = 20, avgTime = 4, status = warming,
          optimizationLevel = 0, firstTime = Some 4, bestTime = Some 4\<rparr>,
        history = [4, 4, 4, 4, 4],
        execute = (), iterations = 1\<rparr>]
   \<and> fst (resetAll ''12:00:00''
       ([\<lparr>name = ''f'', code = ''c'',
        stats = \<lparr>callCount = 5, totalTime = 20, avgTime = 4, status = warming,
          optimizationLevel = 0, firstTime = Some 4, bestTime = Some 4\<rparr>,
        history = [4, 4, 4, 4, 4],
        execute = (), iterations = 1\<rparr>],
        [(''11:59:59'', WarmingJIT ''f'')])) =
     [\<lparr>name = ''f'', code = ''c'',
        stats = \<lparr>callCount = 0, totalTime = 0, avgTime = 0, status = cold,
          optimizationLevel = 0, firstTime = None, bestTime = None\<rparr>,
        history = [],
        execute = (), iterations = 1\<rparr>]
   \<and> (0 :: nat) < length
     [\<lparr>name = ''g'', code = ''c'',
        stats = \<lparr>callCount = 5, totalTime = 500, avgTime = 100, status = warming,
          optimizationLevel = 3602879701896397 / 18014398509481984\<rparr>,
        history = [100, 100, 100, 100, 100]\<rparr>]
   \<and> fst (resetAllSim ''12:00:00''
       ([\<lparr>name = ''g'', code = ''c'',
        stats = \<lparr>callCount = 5, totalTime = 500, avgTime = 100, status = warming,
          optimizationLevel = 3602879701896397 / 18014398509481984\<rparr>,
        history = [100, 100, 100, 100, 100]\<rparr>],
        [(''11:59:59'', WarmingProfiling ''g'')])) =
     [\<lparr>name = ''g'', code = ''c'',
        stats = \<lparr>callCount = 0, totalTime = 0, avgTime = 0, status = cold,
          optimizationLevel = 0\<rparr>,
        history = []\<rparr>]"
proof -
  let ?F5 = "\<lparr>name = ''f'', code = ''c'',
        stats = \<lparr>callCount = 5, totalTime = 20, avgTime = 4, status = warming,
          optimizationLevel = 0, firstTime = Some 4, bestTime = Some 4\<rparr>,
        history = [4, 4, 4, 4, 4],
        execute = (), iterations = 1\<rparr>"
  let ?G5 = "\<lparr>name = ''g'', code = ''c'',
        stats = \<lparr>callCount = 5, totalTime = 500, avgTime = 100, status = warming,
          optimizationLevel = 3602879701896397 / 18014398509481984\<rparr>,
        history = [100, 100, 100, 100, 100]\<rparr>"
  from C8_reset_all_records [where now = "''12:00:00''" and fs = "[?F5]"
      and logs = "[(''11:59:59'', WarmingJIT ''f'')]" and now' = "''12:00:00''"
      and gs = "[?G5]" and logs' = "[(''11:59:59'', WarmingProfiling ''g'')]"]
  have "callCount (stats (fst (resetAll ''12:00:00''
      ([?F5], [(''11:59:59'', WarmingJIT ''f'')])) ! 0)) = 0
    \<and> callCount (stats (fst (resetAllSim ''12:00:00''
      ([?G5], [(''11:59:59'', WarmingProfiling ''g'')])) ! 0)) = 0"
    by simp
  then show ?thesis
    by (simp add: resetAll_def resetAllSim_def sampler_defs)
qed

subsection \<open>C9\<close>

text \<open>
  C9 fails as stated: 51 lines appended to an empty log give a log of 51 lines.
\<close>

theorem C9_log_length_counterexample:
  "length (addLogs (replicate 51 (''12:00:00'', OtherMessage ''line'')) []) = 51
   \<and> \<not> length (addLogs (replicate 51 (''12:00:00'', OtherMessage ''line'')) []) \<le> 50"
  by (simp add: addLogs_from_empty length_slice_last)

text \<open>
  C9 as amended. \<^verbatim>\<open>addLog\<close> keeps the last 50 lines of the log and appends
  the new one: the log never has more than 51 lines, and after any sequence of
  lines appended to the empty log it holds the last 51 of them.
\<close>

theorem C9_log_keeps_last_51:
  "length (addLog now message prev) \<le> 51
   \<and> addLog now message prev = slice_last 50 prev @ [(now, message)]
   \<and> addLogs ls [] = slice_last 51 ls
   \<and> length (addLogs ls []) = min 51 (length ls)"
  by (simp add: length_addLog addLogs_from_empty length_slice_last) (simp add: addLog_def)

subsection \<open>C10\<close>

text \<open>
  C10. A sample at a valid index succeeds, keeps the number of records, leaves
  every record at another index as it was, and changes nothing of the sampled
  record but its statistics and its history: name, source text, workload and
  iteration count stay (name and source text in the simulated page, whose
  records have no other fields).
\<close>

theorem C10_sample_changes_one_record:
  "(i < length fs \<longrightarrow>
      (\<exists>fs' m. executeFunction i t fs = Some (fs', m) \<and> length fs' = length fs \<and>
         (\<forall>j < length fs. j \<noteq> i \<longrightarrow> fs' ! j = fs ! j) \<and>
         fs' ! i = (fs ! i)\<lparr>stats := stats (fs' ! i), history := history (fs' ! i)\<rparr> \<and>
         name (fs' ! i) = name (fs ! i) \<and> code (fs' ! i) = code (fs ! i) \<and>
         execute (fs' ! i) = execute (fs ! i) \<and> iterations (fs' ! i) = iterations (fs ! i)))
   \<and>
   (k < length gs \<longrightarrow>
      (\<exists>gs' n. simulateExecution k r gs = Some (gs', n) \<and> length gs' = length gs \<and>
         (\<forall>j < length gs. j \<noteq> k \<longrightarrow> gs' ! j = gs ! j) \<and>
         gs' ! k = (gs ! k)\<lparr>stats := stats (gs' ! k), history := history (gs' ! k)\<rparr> \<and>
         name (gs' ! k) = name (gs ! k) \<and> code (gs' ! k) = code (gs ! k)))"
  by (simp add: executeFunction_eq simulateExecution_eq)

theorem C10_witness:
  "(0 :: nat) < length
     [\<lparr>name = ''f'', code = ''c'',
        stats = \<lparr>callCount = 4, totalTime = 16, avgTime = 4, status = cold,
          optimizationLevel = 0, firstTime = Some 4, bestTime = Some 4\<rparr>,
        history = [4, 4, 4, 4],
        execute = (), iterations = 1\<rparr>,
      \<lparr>name = ''h'', code = ''d'', stats = resetStats, history = [],
        execute = (), iterations = 100\<rparr>]
   \<and> executeFunction 0 4
     [\<lparr>name = ''f'', code = ''c'',
        stats = \<lparr>callCount = 4, totalTime = 16, avgTime = 4, status = cold,
          optimizationLevel = 0, firstTime = Some 4, bestTime = Some 4\<rparr>,
        history = [4, 4, 4, 4],
        execute = (), iterations = 1\<rparr>,
      \<lparr>name = ''h'', code = ''d'', stats = resetStats, history = [],
        execute = (), iterations = 100\<rparr>] =
   Some ([\<lparr>name = ''f'', code = ''c'',
        stats = \<lparr>callCount = 5, totalTime = 20, avgTime = 4, status = warming,
          optimizationLevel = 0, firstTime = Some 4, bestTime = Some 4\<rparr>,
        history = [4, 4, 4, 4, 4],
        execute = (), iterations = 1\<rparr>,
          \<lparr>name = ''h'', code = ''d'', stats = resetStats, history = [],
        execute = (), iterations = 100\<rparr>],
         [WarmingJIT ''f''])
   \<and> (1 :: nat) < length
     [\<lparr>name = ''e'', code = ''b'', stats = resetStatsSim, history = []\<rparr>,
      \<lparr>name = ''g'', code = ''c'',
        stats = \<lparr>callCount = 4, totalTime = 400, avgTime = 100, status = cold,
          optimizationLevel = 0\<rparr>,
        history = [100, 100, 100, 100]\<rparr>]
   \<and> simulateExecution 1 (1 / 2)
       [\<lparr>name = ''e'', code = ''b'', stats = resetStatsSim, history = []\<rparr>,
        \<lparr>name = ''g'', code = ''c'',
        stats = \<lparr>callCount = 4, totalTime = 400, avgTime = 100, status = cold,
          optimizationLevel = 0\<rparr>,
        history = [100, 100, 100, 100]\<rparr>] =
     Some ([\<lparr>name = ''e'', code = ''b'', stats = resetStatsSim, history = []\<rparr>,
            \<lparr>name = ''g'', code = ''c'',
        stats = \<lparr>callCount = 5, totalTime = 500, avgTime = 100, status = warming,
          optimizationLevel = 3602879701896397 / 18014398509481984\<rparr>,
        history = [100, 100, 100, 100, 100]\<rparr>], [WarmingProfiling ''g''])"
proof -
  let ?F4 = "\<lparr>name = ''f'', code = ''c'',
        stats = \<lparr>callCount = 4, totalTime = 16, avgTime = 4, status = cold,
          optimizationLevel = 0, firstTime = Some 4, bestTime = Some 4\<rparr>,
        history = [4, 4, 4, 4],
        execute = (), iterations = 1\<rparr>"
  let ?H = "\<lparr>name = ''h'', code = ''d'', stats = resetStats, history = [],
        execute = (), iterations = 100\<rparr>"
  let ?E = "\<lparr>name = ''e'', code = ''b'', stats = resetStatsSim, history = []\<rparr>"
  let ?G4 = "\<lparr>name = ''g'', code = ''c'',
        stats = \<lparr>callCount = 4, totalTime = 400, avgTime = 100, status = cold,
          optimizationLevel = 0\<rparr>,
        history = [100, 100, 100, 100]\<rparr>"
  have a: "(0 :: nat) < length [?F4, ?H]" and b: "(1 :: nat) < length [?E, ?G4]"
    by simp_all
  from C10_sample_changes_one_record [where i = 0 and t = 4 and fs = "[?F4, ?H]"
      and k = 1 and r = "1 / 2" and gs = "[?E, ?G4]"] a b
  have "\<exists>fs' m. executeFunction 0 4 [?F4, ?H] = Some (fs', m) \<and> fs' ! 1 = ?H"
    and "\<exists>gs' n. simulateExecution 1 (1 / 2) [?E, ?G4] = Some (gs', n) \<and> gs' ! 0 = ?E"
    by auto
  then show ?thesis
    by (simp add: sampler_defs fl_simps)
qed

end
